theory Spec2Isabelle
  imports Complex_Main
begin

section \<open>Run-time values\<close>

text \<open>
  A Go function of the client either returns an \<^verbatim>\<open>error\<close> value, which carries its
  message text, or unwinds with a run-time panic.  Both are results of the model.
\<close>

datatype panic =
    IndexOutOfRange nat nat
  | MakesliceLenOutOfRange
  | NilPointerDereference

datatype error = Err string | Panic panic

text \<open>
  Values of Go's \<^verbatim>\<open>any\<close> as they come out of a decoded JSON object.  The client compares
  such a value with a string and prints it with \<^verbatim>\<open>%v\<close>; a number, array or object
  is therefore represented by its \<^verbatim>\<open>%v\<close> rendering.
\<close>

datatype any = Nil | Str string | Bool bool | Other string

definition index_any :: "(string \<rightharpoonup> any) \<Rightarrow> string \<Rightarrow> any" where
  "index_any m k = (case m k of None \<Rightarrow> Nil | Some x \<Rightarrow> x)"

fun fmt_v :: "any \<Rightarrow> string" where
  "fmt_v Nil = ''<nil>''"
| "fmt_v (Str s) = s"
| "fmt_v (Bool b) = (if b then ''true'' else ''false'')"
| "fmt_v (Other r) = r"

section \<open>Data model of \<^verbatim>\<open>client.go\<close>\<close>

record Config =
  Days :: int
  Output :: string
  FilePath :: string
  Insecure :: bool

text \<open>An open websocket connection; the handle remembers the URL string it was dialed with.\<close>

datatype Conn = WebsocketConn string

record Client =
  Config :: Config
  Conn :: "Conn option"
  MessageID :: int

record 'f bucket =
  Change :: 'f
  End :: int
  Start :: int

record api_error =
  Code :: string
  Message :: string

record 'f APIResponse =
  ID :: int
  Type :: string
  Success :: bool
  Result :: "string \<rightharpoonup> 'f bucket list"
  Error :: api_error

definition hoursInADay :: nat where
  "hoursInADay = 24"

definition New :: "Config \<Rightarrow> Client" where
  "New cfg = \<lparr>Config = cfg, Conn = None, MessageID = 0\<rparr>"

section \<open>The packages the client imports\<close>

subsection \<open>\<^verbatim>\<open>net/url\<close>\<close>

record Userinfo =
  username :: string
  password :: string
  passwordSet :: bool

record URL =
  Scheme :: string
  Opaque :: string
  User :: "Userinfo option"
  Host :: string
  Path :: string
  RawPath :: string
  OmitHost :: bool
  ForceQuery :: bool
  RawQuery :: string
  Fragment :: string
  RawFragment :: string

text \<open>
  \<^verbatim>\<open>URL.String\<close> for a URL whose components need no percent-escaping, after the
  package documentation: \<^verbatim>\<open>scheme:opaque?query#fragment\<close> when \<^verbatim>\<open>Opaque\<close> is set,
  \<^verbatim>\<open>scheme://userinfo@host/path?query#fragment\<close> otherwise.
\<close>

definition Userinfo_String :: "Userinfo \<Rightarrow> string" where
  "Userinfo_String u =
     username u @ (if passwordSet u then '':'' @ password u else '''')"

definition URL_String_plain :: "URL \<Rightarrow> string" where
  "URL_String_plain u =
     (if Scheme u \<noteq> '''' then Scheme u @ '':'' else '''') @
     (if Opaque u \<noteq> '''' then Opaque u
      else
        (if (Scheme u \<noteq> '''' \<or> Host u \<noteq> '''' \<or> User u \<noteq> None) \<and>
            \<not> (OmitHost u \<and> Host u = '''' \<and> User u = None)
         then (if Host u \<noteq> '''' \<or> Path u \<noteq> '''' \<or> User u \<noteq> None then ''//'' else '''') @
              (case User u of None \<Rightarrow> '''' | Some ui \<Rightarrow> Userinfo_String ui @ ''@'') @
              Host u
         else '''') @
        (if Path u \<noteq> '''' \<and> hd (Path u) \<noteq> CHR ''/'' \<and> Host u \<noteq> '''' then ''/'' else '''') @
        Path u) @
     (if ForceQuery u \<or> RawQuery u \<noteq> '''' then ''?'' @ RawQuery u else '''') @
     (if Fragment u \<noteq> '''' then ''#'' @ Fragment u else '''')"

subsection \<open>\<^verbatim>\<open>time\<close>\<close>

text \<open>
  A \<^verbatim>\<open>time.Time\<close> is an instant, here in nanoseconds since the Unix epoch, together
  with the location its calendar fields are presented in: the offset east of UTC, in
  seconds, at a given Unix second.  A \<^verbatim>\<open>time.Duration\<close> is an \<^verbatim>\<open>int64\<close> count of
  nanoseconds, so duration arithmetic wraps.
\<close>

type_synonym Location = "int \<Rightarrow> int"

record Time =
  unixNano :: int
  loc :: Location

definition UTC_Location :: Location where
  "UTC_Location = (\<lambda>_. 0)"

definition wrap_int64 :: "int \<Rightarrow> int" where
  "wrap_int64 x = (x + 2 ^ 63) mod 2 ^ 64 - 2 ^ 63"

definition Hour :: int where
  "Hour = 3600000000000"

definition Duration_mul :: "int \<Rightarrow> int \<Rightarrow> int" where
  "Duration_mul a b = wrap_int64 (a * b)"

definition Duration_neg :: "int \<Rightarrow> int" where
  "Duration_neg d = wrap_int64 (- d)"

definition Time_Add :: "Time \<Rightarrow> int \<Rightarrow> Time" where
  "Time_Add t d = t\<lparr>unixNano := unixNano t + d\<rparr>"

text \<open>Seconds from the zero time, January 1 of year 1, 00:00:00 UTC, to the Unix epoch.\<close>

definition unixToInternal :: int where
  "unixToInternal = 62135596800"

text \<open>
  \<^verbatim>\<open>Truncate\<close> rounds the instant down to a multiple of \<open>d\<close> since the zero time; it works
  on the absolute time, whatever the location.
\<close>

definition Time_Truncate :: "Time \<Rightarrow> int \<Rightarrow> Time" where
  "Time_Truncate t d =
     (if d \<le> 0 then t
      else t\<lparr>unixNano := unixNano t - (unixNano t + unixToInternal * 1000000000) mod d\<rparr>)"

definition Time_UTC :: "Time \<Rightarrow> Time" where
  "Time_UTC t = t\<lparr>loc := UTC_Location\<rparr>"

text \<open>Decimal digits of a natural number, and \<^verbatim>\<open>appendInt\<close>: sign, zero padding to a width.\<close>

function utod :: "nat \<Rightarrow> string" where
  "utod u = (if u < 10 then [char_of (48 + u)] else utod (u div 10) @ [char_of (48 + u mod 10)])"
  by pat_completeness auto
termination
  by (relation "measure id") auto

declare utod.simps [simp del]

definition appendInt :: "int \<Rightarrow> nat \<Rightarrow> string" where
  "appendInt x width =
     (let ds = utod (nat \<bar>x\<bar>)
      in (if x < 0 then ''-'' else '''') @ replicate (width - length ds) (CHR ''0'') @ ds)"

text \<open>
  The civil date of a day number (days since 1970-01-01) in the proleptic Gregorian
  calendar: year, month, day of month.
\<close>

definition civil_from_days :: "int \<Rightarrow> int \<times> int \<times> int" where
  "civil_from_days z0 =
     (let z = z0 + 719468;
          era = z div 146097;
          doe = z - era * 146097;
          yoe = (doe - doe div 1460 + doe div 36524 - doe div 146096) div 365;
          doy = doe - (365 * yoe + yoe div 4 - yoe div 100);
          mp = (5 * doy + 2) div 153;
          d = doy - (153 * mp + 2) div 5 + 1;
          m = (if mp < 10 then mp + 3 else mp - 9);
          y = yoe + era * 400 + (if m \<le> 2 then 1 else 0)
      in (y, m, d))"

text \<open>
  \<^verbatim>\<open>t.Format("2006-01-02T15:04:05.000Z")\<close>.  The layout's fields are year, month, day,
  hour, minute, second and three fractional digits, all read off the wall clock of the
  time's location.  The final \<^verbatim>\<open>Z\<close> is not followed by \<^verbatim>\<open>07\<close>, so it is no zone
  field: it is copied to the output as it stands.
\<close>

definition Time_Format :: "Time \<Rightarrow> string" where
  "Time_Format t =
     (let unix = unixNano t div 1000000000;
          nsec = unixNano t mod 1000000000;
          wall = unix + loc t unix;
          (year, month, day) = civil_from_days (wall div 86400);
          secs = wall mod 86400
      in appendInt year 4 @ ''-'' @ appendInt month 2 @ ''-'' @ appendInt day 2 @ ''T'' @
         appendInt (secs div 3600) 2 @ '':'' @ appendInt (secs mod 3600 div 60) 2 @ '':'' @
         appendInt (secs mod 60) 2 @ ''.'' @ appendInt (nsec div 1000000) 3 @ ''Z'')"

section \<open>The world outside the process\<close>

text \<open>
  What the server sends is a list of frames.  A frame is known by what decoding it gives:
  into a \<^verbatim>\<open>map[string]any\<close> (the handshake) and into an \<^verbatim>\<open>APIResponse\<close> (the collection
  loop); \<open>Inl\<close> is the text of the read or decode error.
\<close>

datatype 'f frame =
  Frame (as_map: "string + (string \<rightharpoonup> any)") (as_APIResponse: "string + 'f APIResponse")

record stats_request =
  req_id :: int
  req_type :: string
  start_time :: string
  end_time :: string
  statistic_ids :: "string list"
  period :: string
  types :: "string list"
  units :: "(string \<times> string) list"

datatype wire_out =
    AuthMessage "(string \<times> string) list"
  | StatsMessage stats_request

text \<open>
  The world holds the behaviour of the environment (how \<^verbatim>\<open>url.Parse\<close> and
  \<^verbatim>\<open>URL.String\<close> answer, which dials and writes fail, the frames still to be read, the
  readings of the wall clock, the local time zone) and a log of the network calls made:
  \<open>dialed\<close> and \<open>sent\<close>.  Reading from an exhausted \<open>inbox\<close> is a read error: the peer has
  closed the connection.
\<close>

record 'f world =
  url_Parse :: "string \<Rightarrow> string + URL"
  URL_String :: "URL \<Rightarrow> string"
  Dial :: "string \<Rightarrow> bool \<Rightarrow> string option"
  write_error :: "nat \<Rightarrow> string option"
  inbox :: "'f frame list"
  dialed :: "(string \<times> bool) list"
  sent :: "wire_out list"
  clock :: "nat \<Rightarrow> int"
  clock_reads :: nat
  Local :: Location

text \<open>The process-wide settings store: \<^verbatim>\<open>viper.GetString\<close>, empty for an unset key.\<close>

type_synonym viper = "string \<Rightarrow> string"

definition time_Now :: "'f world \<Rightarrow> Time \<times> 'f world" where
  "time_Now w =
     (\<lparr>unixNano = clock w (clock_reads w), loc = Local w\<rparr>,
      w\<lparr>clock_reads := Suc (clock_reads w)\<rparr>)"

definition WriteJSON :: "Conn option \<Rightarrow> wire_out \<Rightarrow> 'f world \<Rightarrow> error option \<times> 'f world" where
  "WriteJSON conn msg w =
     (case conn of
        None \<Rightarrow> (Some (Panic NilPointerDereference), w)
      | Some _ \<Rightarrow>
          (map_option Err (write_error w (length (sent w))), w\<lparr>sent := sent w @ [msg]\<rparr>))"

definition ReadJSON :: "Conn option \<Rightarrow> 'f world \<Rightarrow> (error + 'f frame) \<times> 'f world" where
  "ReadJSON conn w =
     (case conn of
        None \<Rightarrow> (Inl (Panic NilPointerDereference), w)
      | Some _ \<Rightarrow>
          (case inbox w of
             [] \<Rightarrow> (Inl (Err ''unexpected EOF''), w)
           | fr # rest \<Rightarrow> (Inr fr, w\<lparr>inbox := rest\<rparr>)))"

section \<open>\<^verbatim>\<open>Connect\<close>\<close>

text \<open>
  The result is the error returned (\<open>None\<close> for \<^verbatim>\<open>nil\<close>), the client and the world
  after the call.  Log output is not part of the model.
\<close>

definition rewrite_scheme :: "URL \<Rightarrow> URL" where
  "rewrite_scheme dialURL =
     (if Scheme dialURL = ''http'' then dialURL\<lparr>Scheme := ''ws''\<rparr>
      else if Scheme dialURL = ''https'' then dialURL\<lparr>Scheme := ''wss''\<rparr>
      else dialURL)"

definition handshake :: "viper \<Rightarrow> Client \<Rightarrow> Conn \<Rightarrow> 'f world \<Rightarrow> error option \<times> Client \<times> 'f world" where
  "handshake v c conn w =
     (case ReadJSON (Some conn) w of
        (Inl (Err e), w1) \<Rightarrow> (Some (Err (''initial message: '' @ e)), c, w1)
      | (Inl (Panic p), w1) \<Rightarrow> (Some (Panic p), c, w1)
      | (Inr fr0, w1) \<Rightarrow>
      (case as_map fr0 of
        Inl e \<Rightarrow> (Some (Err (''initial message: '' @ e)), c, w1)
      | Inr initMsg \<Rightarrow>
      (case WriteJSON (Some conn)
              (AuthMessage [(''type'', ''auth''), (''access_token'', v ''api_key'')]) w1 of
        (Some (Err e), w2) \<Rightarrow> (Some (Err (''auth message: '' @ e)), c, w2)
      | (Some (Panic p), w2) \<Rightarrow> (Some (Panic p), c, w2)
      | (None, w2) \<Rightarrow>
      (case ReadJSON (Some conn) w2 of
        (Inl (Err e), w3) \<Rightarrow> (Some (Err (''auth response: '' @ e)), c, w3)
      | (Inl (Panic p), w3) \<Rightarrow> (Some (Panic p), c, w3)
      | (Inr fr1, w3) \<Rightarrow>
      (case as_map fr1 of
        Inl e \<Rightarrow> (Some (Err (''auth response: '' @ e)), c, w3)
      | Inr authResp \<Rightarrow>
          if index_any authResp ''type'' \<noteq> Str ''auth_ok''
          then (Some (Err (''authentication failed: '' @ fmt_v (index_any authResp ''message''))),
                c, w3)
          else (None, c\<lparr>Conn := Some conn\<rparr>, w3))))))"

definition Connect :: "viper \<Rightarrow> Client \<Rightarrow> 'f world \<Rightarrow> error option \<times> Client \<times> 'f world" where
  "Connect v c0 w =
     (let c = c0\<lparr>MessageID := 1\<rparr>
      in if v ''url'' = '''' then (Some (Err ''url is required''), c, w)
         else
           (case url_Parse w (v ''url'') of
              Inl e \<Rightarrow> (Some (Err e), c, w)
            | Inr parsed \<Rightarrow>
                (let dialURL = (rewrite_scheme parsed)\<lparr>Path := ''/api/websocket''\<rparr>;
                     target = URL_String w dialURL;
                     insecure = Insecure (Config c);
                     w1 = w\<lparr>dialed := dialed w @ [(target, insecure)]\<rparr>
                 in case Dial w target insecure of
                      Some e \<Rightarrow> (Some (Err (''dial: '' @ e)), c, w1)
                    | None \<Rightarrow> handshake v c (WebsocketConn target) w1)))"

section \<open>\<^verbatim>\<open>getResults\<close>\<close>

text \<open>
  The largest allocation the run-time system accepts on a 64-bit platform; a slice header
  takes 24 bytes, and \<^verbatim>\<open>make\<close> panics for a negative length or one over the limit.
\<close>

definition maxAlloc :: int where
  "maxAlloc = 2 ^ 48"

text \<open>The inner loop: \<^verbatim>\<open>changeSlice[j] = data.Result[sensorID][j].Change\<close>, \<open>j\<close> over \<^verbatim>\<open>changeSlice\<close>.\<close>

function changeSlice_loop :: "'f bucket list \<Rightarrow> nat \<Rightarrow> 'f list \<Rightarrow> error + 'f list" where
  "changeSlice_loop buckets j changeSlice =
     (if j < length changeSlice
      then (if j < length buckets
            then changeSlice_loop buckets (Suc j) (changeSlice[j := Change (buckets ! j)])
            else Inl (Panic (IndexOutOfRange j (length buckets))))
      else Inr changeSlice)"
  by pat_completeness auto
termination
  by (relation "measure (\<lambda>(buckets, j, changeSlice). length changeSlice - j)") auto

declare changeSlice_loop.simps [simp del]

definition lookup_buckets :: "'f APIResponse \<Rightarrow> string \<Rightarrow> 'f bucket list" where
  "lookup_buckets data sensorID = (case Result data sensorID of None \<Rightarrow> [] | Some bs \<Rightarrow> bs)"

text \<open>What the body does with a decoded response.\<close>

definition extract_row :: "string \<Rightarrow> ('f::zero) APIResponse \<Rightarrow> error + 'f list" where
  "extract_row sensorID data =
     (if \<not> Success data
      then Inl (Err (''api response error: {'' @ Code (Error data) @ '' '' @
                      Message (Error data) @ ''}''))
      else if length (lookup_buckets data sensorID) = 0
      then Inl (Err (''no results returned - is your sensorID '' @ [CHR 0x27] @ sensorID @
                      [CHR 0x27] @ '' correct?''))
      else changeSlice_loop (lookup_buckets data sensorID) 0 (replicate hoursInADay 0))"

definition day_offset :: "nat \<Rightarrow> int" where
  "day_offset i = Duration_mul (wrap_int64 ((int i + 1) * 24)) Hour"

text \<open>
  The request of row \<open>i\<close>: \<open>now1\<close> and \<open>now2\<close> are the two readings of the clock, the first
  for \<^verbatim>\<open>start\<close>, the second for \<^verbatim>\<open>end_time\<close>.
\<close>

definition statistics_message :: "string \<Rightarrow> int \<Rightarrow> nat \<Rightarrow> Time \<Rightarrow> Time \<Rightarrow> stats_request" where
  "statistics_message sensorID messageID i now1 now2 =
     (let offset = day_offset i;
          start = Time_Format
                    (Time_Truncate (Time_Add now1 (Duration_neg offset)) (Duration_mul 24 Hour))
      in \<lparr>req_id = messageID,
          req_type = ''recorder/statistics_during_period'',
          start_time = start,
          end_time = Time_Format (Time_Truncate now2 (Duration_mul 24 Hour)),
          statistic_ids = [sensorID],
          period = ''hour'',
          types = [''change''],
          units = [(''energy'', ''kWh'')]\<rparr>)"

text \<open>One pass through the body of the loop over the rows, for row \<open>i\<close>.\<close>

definition getResults_body ::
  "string \<Rightarrow> nat \<Rightarrow> Client \<Rightarrow> ('f::zero) world \<Rightarrow> (error + 'f list) \<times> Client \<times> 'f world" where
  "getResults_body sensorID i c0 w =
     (let c = c0\<lparr>MessageID := wrap_int64 (MessageID c0 + 1)\<rparr>;
          (now1, w1) = time_Now w;
          (now2, w2) = time_Now w1;
          msg = statistics_message sensorID (MessageID c) i now1 now2
      in case WriteJSON (Conn c) (StatsMessage msg) w2 of
           (Some (Err e), w3) \<Rightarrow> (Inl (Err (''writing to websocket: '' @ e)), c, w3)
         | (Some (Panic p), w3) \<Rightarrow> (Inl (Panic p), c, w3)
         | (None, w3) \<Rightarrow>
         (case ReadJSON (Conn c) w3 of
           (Inl (Err e), w4) \<Rightarrow> (Inl (Err (''reading from websocket: '' @ e)), c, w4)
         | (Inl (Panic p), w4) \<Rightarrow> (Inl (Panic p), c, w4)
         | (Inr fr, w4) \<Rightarrow>
         (case as_APIResponse fr of
           Inl e \<Rightarrow> (Inl (Err (''reading from websocket: '' @ e)), c, w4)
         | Inr data \<Rightarrow> (extract_row sensorID data, c, w4))))"

function getResults_loop ::
  "string \<Rightarrow> nat \<Rightarrow> 'f list list \<Rightarrow> Client \<Rightarrow> ('f::zero) world \<Rightarrow>
     (error + 'f list list) \<times> Client \<times> 'f world" where
  "getResults_loop sensorID i results c w =
     (if i < length results
      then (case getResults_body sensorID i c w of
              (Inl e, c', w') \<Rightarrow> (Inl e, c', w')
            | (Inr changeSlice, c', w') \<Rightarrow>
                getResults_loop sensorID (Suc i) (results[i := changeSlice]) c' w')
      else (Inr results, c, w))"
  by pat_completeness auto
termination
  by (relation "measure (\<lambda>(sensorID, i, results, c, w). length results - i)") auto

declare getResults_loop.simps [simp del]

definition getResults ::
  "viper \<Rightarrow> Client \<Rightarrow> ('f::zero) world \<Rightarrow> (error + 'f list list) \<times> Client \<times> 'f world" where
  "getResults v c w =
     (if Days (Config c) < 0 \<or> maxAlloc < Days (Config c) * 24
      then (Inl (Panic MakesliceLenOutOfRange), c, w)
      else
        (let results = replicate (nat (Days (Config c))) [];
             sensorID = v ''sensor_id''
         in if sensorID = '''' then (Inl (Err ''sensor_id is required''), c, w)
            else getResults_loop sensorID 0 results c w))"

section \<open>\<^verbatim>\<open>ComputePowerStats\<close>\<close>

text \<open>
  \<^verbatim>\<open>float64\<close> values are an arbitrary type \<open>'f\<close> with a zero, an addition and a division,
  of which no law is assumed; the conversion \<^verbatim>\<open>float64(n)\<close> is the parameter \<open>float64\<close>.
\<close>

fun column_sum :: "('f::plus) list list \<Rightarrow> nat \<Rightarrow> 'f \<Rightarrow> error + 'f" where
  "column_sum [] i acc = Inr acc"
| "column_sum (row # rows) i acc =
     (if i < length row then column_sum rows i (acc + row ! i)
      else Inl (Panic (IndexOutOfRange i (length row))))"

function averages_loop ::
  "(int \<Rightarrow> 'f) \<Rightarrow> int \<Rightarrow> ('f::{zero,plus,inverse}) list list \<Rightarrow> nat \<Rightarrow> 'f list \<Rightarrow> error + 'f list" where
  "averages_loop float64 days results i averages =
     (if i < length averages
      then (case column_sum results i 0 of
              Inl e \<Rightarrow> Inl e
            | Inr acc \<Rightarrow>
                averages_loop float64 days results (Suc i) (averages[i := acc / float64 days]))
      else Inr averages)"
  by pat_completeness auto
termination
  by (relation "measure (\<lambda>(float64, days, results, i, averages). length averages - i)") auto

declare averages_loop.simps [simp del]

text \<open>The renderer chosen, with its arguments.\<close>

datatype 'f rendering =
    writePlainText (averages_of: "'f list")
  | printTable (results_of: "'f list list") (averages_of: "'f list") (headers_of: "string list")
  | writeCSVFile (path_of: string) (headers_of: "string list") (results_of: "'f list list")
      (averages_of: "'f list")

definition ComputePowerStats ::
  "(int \<Rightarrow> 'f) \<Rightarrow> viper \<Rightarrow> Client \<Rightarrow> ('f::{zero,plus,inverse}) world \<Rightarrow>
     (error + 'f rendering) \<times> Client \<times> 'f world" where
  "ComputePowerStats float64 v c w =
     (case getResults v c w of
        (Inl (Err e), c', w') \<Rightarrow> (Inl (Err (''getting results: '' @ e)), c', w')
      | (Inl (Panic p), c', w') \<Rightarrow> (Inl (Panic p), c', w')
      | (Inr results, c', w') \<Rightarrow>
          (case averages_loop float64 (Days (Config c')) results 0 (replicate hoursInADay 0) of
             Inl e \<Rightarrow> (Inl e, c', w')
           | Inr averages \<Rightarrow>
               (let headers = map utod [0..<hoursInADay]
                in (Inr (if Output (Config c') = ''text'' then writePlainText averages
                         else if Output (Config c') = ''table''
                         then printTable results averages headers
                         else if Output (Config c') = ''csv''
                         then writeCSVFile (FilePath (Config c')) headers results averages
                         else printTable results averages headers),
                    c', w'))))"

section \<open>A concrete run\<close>

text \<open>
  A server at \<^verbatim>\<open>ha.local\<close>, a configured URL with a path and a query, the wall clock at
  2024-06-15 08:30 UTC in a local zone two hours east of UTC.
\<close>

definition example_viper :: viper where
  "example_viper k =
     (if k = ''url'' then ''http://ha.local:8123/lovelace?kiosk=1''
      else if k = ''api_key'' then ''secret''
      else if k = ''sensor_id'' then ''sensor.power''
      else '''')"

text \<open>
  What \<^verbatim>\<open>url.Parse\<close> returns for the configured URL, and a parser that knows this URL only.
\<close>

definition example_URL :: URL where
  "example_URL =
     \<lparr>Scheme = ''http'', Opaque = '''', User = None, Host = ''ha.local:8123'',
      Path = ''/lovelace'', RawPath = '''', OmitHost = False, ForceQuery = False,
      RawQuery = ''kiosk=1'', Fragment = '''', RawFragment = ''''\<rparr>"

definition example_Parse :: "string \<Rightarrow> string + URL" where
  "example_Parse s =
     (if s = ''http://ha.local:8123/lovelace?kiosk=1'' then Inr example_URL
      else Inl ''parse: unsupported in this example'')"

text \<open>
  Frames: a handshake message of a given type, and a statistics response that reports
  success with the given change values for one sensor.
\<close>

definition message_frame :: "string \<Rightarrow> (string \<rightharpoonup> any) \<Rightarrow> real frame" where
  "message_frame ty extra =
     Frame (Inr (extra(''type'' \<mapsto> Str ty)))
           (Inr \<lparr>ID = 0, Type = ty, Success = False, Result = Map.empty,
                 Error = \<lparr>Code = '''', Message = ''''\<rparr>\<rparr>)"

definition stats_frame :: "int \<Rightarrow> string \<Rightarrow> real list \<Rightarrow> real frame" where
  "stats_frame n sensor changes =
     Frame (Inr [''type'' \<mapsto> Str ''result'', ''success'' \<mapsto> Bool True])
           (Inr \<lparr>ID = n, Type = ''result'', Success = True,
                 Result = [sensor \<mapsto> map (\<lambda>x. \<lparr>Change = x, End = 0, Start = 0\<rparr>) changes],
                 Error = \<lparr>Code = '''', Message = ''''\<rparr>\<rparr>)"

text \<open>
  The world: every dial and write succeeds, the clock advances by a millisecond from one
  reading to the next, and \<open>float64\<close> values are real numbers.
\<close>

definition example_world :: "real frame list \<Rightarrow> real world" where
  "example_world frames =
     \<lparr>url_Parse = example_Parse, URL_String = URL_String_plain,
      Dial = (\<lambda>target insecure. None), write_error = (\<lambda>n. None),
      inbox = frames, dialed = [], sent = [],
      clock = (\<lambda>n. 1718440200000000000 + int n * 1000000), clock_reads = 0,
      Local = (\<lambda>unix. 7200)\<rparr>"

definition example_client :: "int \<Rightarrow> Client" where
  "example_client n =
     New \<lparr>Days = n, Output = ''text'', FilePath = ''results.csv'', Insecure = False\<rparr>"

definition connected_client :: "int \<Rightarrow> Client" where
  "connected_client n =
     (example_client n)
       \<lparr>Conn := Some (WebsocketConn ''ws://ha.local:8123/api/websocket?kiosk=1''),
        MessageID := 1\<rparr>"

definition two_days :: "real frame list" where
  "two_days =
     [stats_frame 2 ''sensor.power'' (replicate 24 1),
      stats_frame 3 ''sensor.power'' (replicate 24 1)]"

text \<open>Settings with nothing configured, and the handshake frames of a server.\<close>

definition unset_viper :: viper where
  "unset_viper k = ''''"

definition hello_frame :: "real frame" where
  "hello_frame = message_frame ''auth_required'' Map.empty"

definition auth_ok_frame :: "real frame" where
  "auth_ok_frame = message_frame ''auth_ok'' Map.empty"

definition auth_invalid_frame :: "real frame" where
  "auth_invalid_frame =
     message_frame ''auth_invalid'' [''message'' \<mapsto> Str ''Invalid access token or password'']"

text \<open>Responses: a day of 23 buckets, a full day, and a full day followed by no buckets.\<close>

definition short_day :: "real frame list" where
  "short_day = [stats_frame 2 ''sensor.power'' (replicate 23 1)]"

definition one_day :: "real frame list" where
  "one_day = [stats_frame 2 ''sensor.power'' (replicate 24 1)]"


section \<open>Notions used in the statements\<close>

text \<open>
  What a frame is for the collection loop: whether it decodes to a response that reports
  success, the buckets it has for a sensor, whether these make a full day, and the row the
  loop takes from a full day.
\<close>

definition response_buckets :: "string \<Rightarrow> 'f frame \<Rightarrow> 'f bucket list" where
  "response_buckets sensorID fr =
     (case as_APIResponse fr of Inl e \<Rightarrow> [] | Inr data \<Rightarrow> lookup_buckets data sensorID)"

definition reports_success :: "'f frame \<Rightarrow> bool" where
  "reports_success fr = (case as_APIResponse fr of Inl e \<Rightarrow> False | Inr data \<Rightarrow> Success data)"

definition full_day :: "string \<Rightarrow> 'f frame \<Rightarrow> bool" where
  "full_day sensorID fr \<longleftrightarrow>
     reports_success fr \<and> hoursInADay \<le> length (response_buckets sensorID fr)"

definition day_row :: "string \<Rightarrow> 'f frame \<Rightarrow> 'f list" where
  "day_row sensorID fr = map Change (take hoursInADay (response_buckets sensorID fr))"

text \<open>The time window a request carries: its \<^verbatim>\<open>start_time\<close> and \<^verbatim>\<open>end_time\<close>.\<close>

definition time_window :: "wire_out \<Rightarrow> string \<times> string" where
  "time_window m =
     (case m of StatsMessage r \<Rightarrow> (start_time r, end_time r) | AuthMessage kv \<Rightarrow> ('''', ''''))"

section \<open>The inner loop and one response\<close>

lemma changeSlice_loop_length:
  "changeSlice_loop buckets j cs = Inr r \<Longrightarrow> length r = length cs"
proof (induction buckets j cs rule: changeSlice_loop.induct)
  case (1 buckets j changeSlice)
  show ?case
  proof (cases "j < length changeSlice")
    case True
    with "1.prems" have inb: "j < length buckets"
      by (subst (asm) changeSlice_loop.simps) (simp split: if_splits)
    with True "1.prems"
    have "changeSlice_loop buckets (Suc j) (changeSlice[j := Change (buckets ! j)]) = Inr r"
      by (subst (asm) changeSlice_loop.simps) simp
    with "1.IH" True inb show ?thesis by simp
  next
    case False
    with "1.prems" show ?thesis by (subst (asm) changeSlice_loop.simps) simp
  qed
qed

lemma changeSlice_loop_panics:
  "j \<le> length buckets \<Longrightarrow> length buckets < length cs \<Longrightarrow>
   changeSlice_loop buckets j cs = Inl (Panic (IndexOutOfRange (length buckets) (length buckets)))"
proof (induction buckets j cs rule: changeSlice_loop.induct)
  case (1 buckets j changeSlice)
  show ?case
  proof (cases "j < length buckets")
    case True
    with 1 show ?thesis by (subst changeSlice_loop.simps) simp
  next
    case False
    with "1.prems" have "j = length buckets" by simp
    with "1.prems" show ?thesis by (subst changeSlice_loop.simps) simp
  qed
qed

lemma changeSlice_loop_copies:
  "length cs \<le> length buckets \<Longrightarrow> j \<le> length cs \<Longrightarrow>
   changeSlice_loop buckets j cs = Inr (take j cs @ map Change (drop j (take (length cs) buckets)))"
proof (induction buckets j cs rule: changeSlice_loop.induct)
  case (1 buckets j changeSlice)
  show ?case
  proof (cases "j < length changeSlice")
    case True
    with "1.prems" have inb: "j < length buckets" by simp
    let ?cs = "changeSlice[j := Change (buckets ! j)]"
    from "1.IH"[OF True inb] "1.prems" True
    have "changeSlice_loop buckets (Suc j) ?cs =
            Inr (take (Suc j) ?cs @ map Change (drop (Suc j) (take (length ?cs) buckets)))"
      by simp
    moreover have "take (Suc j) ?cs = take j changeSlice @ [Change (buckets ! j)]"
      using True by (simp add: take_Suc_conv_app_nth)
    moreover have "drop j (take (length changeSlice) buckets) =
                     buckets ! j # drop (Suc j) (take (length changeSlice) buckets)"
      using True inb by (simp add: Cons_nth_drop_Suc[symmetric])
    ultimately show ?thesis
      using True inb by (subst changeSlice_loop.simps) simp
  next
    case False
    with "1.prems" show ?thesis by (subst changeSlice_loop.simps) simp
  qed
qed

lemma extract_row_length:
  "extract_row sensorID data = Inr row \<Longrightarrow> length row = hoursInADay"
  by (auto simp: extract_row_def split: if_splits dest: changeSlice_loop_length)

lemma extract_row_good:
  "Success data \<Longrightarrow> hoursInADay \<le> length (lookup_buckets data sensorID) \<Longrightarrow>
   extract_row sensorID data = Inr (map Change (take hoursInADay (lookup_buckets data sensorID)))"
  using changeSlice_loop_copies[of "replicate hoursInADay 0" "lookup_buckets data sensorID" 0]
  by (auto simp: extract_row_def hoursInADay_def)

lemma extract_row_short:
  "Success data \<Longrightarrow> 0 < length (lookup_buckets data sensorID) \<Longrightarrow>
   length (lookup_buckets data sensorID) < hoursInADay \<Longrightarrow>
   extract_row sensorID data =
     Inl (Panic (IndexOutOfRange (length (lookup_buckets data sensorID))
                                 (length (lookup_buckets data sensorID))))"
  using changeSlice_loop_panics[of 0 "lookup_buckets data sensorID" "replicate hoursInADay 0"]
  by (auto simp: extract_row_def)

lemma getResults_body_length:
  "getResults_body sensorID i c w = (Inr row, c', w') \<Longrightarrow> length row = hoursInADay"
  by (auto simp: getResults_body_def Let_def
           split: prod.splits option.splits error.splits sum.splits
           dest: extract_row_length)

lemma getResults_body_client:
  "getResults_body sensorID i c w = (r, c', w') \<Longrightarrow>
   c' = c\<lparr>MessageID := wrap_int64 (MessageID c + 1)\<rparr>"
  by (auto simp: getResults_body_def Let_def
           split: prod.splits option.splits error.splits sum.splits)

lemma getResults_body_world:
  assumes "getResults_body sensorID i c w = (r, c', w')" and "Conn c \<noteq> None"
  shows "sent w' = sent w @
           [StatsMessage (statistics_message sensorID (wrap_int64 (MessageID c + 1)) i
              \<lparr>unixNano = clock w (clock_reads w), loc = Local w\<rparr>
              \<lparr>unixNano = clock w (Suc (clock_reads w)), loc = Local w\<rparr>)]"
    and "clock_reads w' = Suc (Suc (clock_reads w))"
    and "clock w' = clock w" and "Local w' = Local w" and "write_error w' = write_error w"
    and "dialed w' = dialed w"
  using assms
  by (auto simp: getResults_body_def Let_def time_Now_def WriteJSON_def ReadJSON_def
           split: prod.splits option.splits error.splits sum.splits list.splits)

lemma getResults_body_step:
  assumes "Conn c \<noteq> None" and "write_error w (length (sent w)) = None"
    and "inbox w = fr # rest" and "as_APIResponse fr = Inr data"
  shows "fst (getResults_body sensorID i c w) = extract_row sensorID data"
    and "inbox (snd (snd (getResults_body sensorID i c w))) = rest"
  using assms
  by (auto simp: getResults_body_def Let_def time_Now_def WriteJSON_def ReadJSON_def
           split: prod.splits option.splits error.splits sum.splits list.splits)

section \<open>The loop over the rows\<close>

lemma getResults_loop_done:
  "length results \<le> i \<Longrightarrow> getResults_loop sensorID i results c w = (Inr results, c, w)"
  by (subst getResults_loop.simps) simp

lemma getResults_loop_failed:
  "i < length results \<Longrightarrow> getResults_body sensorID i c w = (Inl e, c', w') \<Longrightarrow>
   getResults_loop sensorID i results c w = (Inl e, c', w')"
  by (subst getResults_loop.simps) simp

lemma getResults_loop_next:
  "i < length results \<Longrightarrow> getResults_body sensorID i c w = (Inr row, c', w') \<Longrightarrow>
   getResults_loop sensorID i results c w =
     getResults_loop sensorID (Suc i) (results[i := row]) c' w'"
  by (subst getResults_loop.simps) simp

lemma getResults_loop_shape:
  "getResults_loop sensorID i results c w = (Inr res, c', w') \<Longrightarrow>
   length res = length results \<and>
   (\<forall>k < length results. if k < i then res ! k = results ! k else length (res ! k) = hoursInADay)"
proof (induction sensorID i results c w rule: getResults_loop.induct)
  case (1 sensorID i results c w)
  show ?case
  proof (cases "i < length results")
    case True
    obtain r c1 w1 where body: "getResults_body sensorID i c w = (r, c1, w1)"
      by (cases "getResults_body sensorID i c w") auto
    from True body "1.prems" obtain row where r: "r = Inr row"
      by (cases r) (auto simp: getResults_loop_failed)
    from body r have brow: "getResults_body sensorID i c w = (Inr row, c1, w1)" by simp
    from "1.prems" have rec:
      "getResults_loop sensorID (Suc i) (results[i := row]) c1 w1 = (Inr res, c', w')"
      by (simp add: getResults_loop_next[OF True brow])
    have len: "length row = hoursInADay"
      using getResults_body_length[OF brow] .
    from "1.IH"[OF True brow[symmetric] refl refl rec]
    have ih: "length res = length (results[i := row]) \<and>
      (\<forall>k < length (results[i := row]). if k < Suc i then res ! k = results[i := row] ! k
          else length (res ! k) = hoursInADay)" .
    show ?thesis
    proof (intro conjI allI impI)
      show "length res = length results" using ih by simp
    next
      fix k assume k: "k < length results"
      with ih have *: "if k < Suc i then res ! k = results[i := row] ! k
          else length (res ! k) = hoursInADay" by simp
      show "if k < i then res ! k = results ! k else length (res ! k) = hoursInADay"
      proof (cases "k = i")
        case True
        with * k len show ?thesis by simp
      next
        case False
        with * k show ?thesis by (auto simp: less_Suc_eq)
      qed
    qed
  next
    case False
    with "1.prems" show ?thesis by (simp add: getResults_loop_done)
  qed
qed

lemma getResults_loop_client:
  "getResults_loop sensorID i results c w = (r, c', w') \<Longrightarrow>
   Config c' = Config c \<and> Conn c' = Conn c"
proof (induction sensorID i results c w rule: getResults_loop.induct)
  case (1 sensorID i results c w)
  show ?case
  proof (cases "i < length results")
    case True
    obtain r1 c1 w1 where body: "getResults_body sensorID i c w = (r1, c1, w1)"
      by (cases "getResults_body sensorID i c w") auto
    from getResults_body_client[OF body]
    have c1: "Config c1 = Config c" "Conn c1 = Conn c" by simp_all
    show ?thesis
    proof (cases r1)
      case (Inl e)
      with True body "1.prems" c1 show ?thesis by (simp add: getResults_loop_failed)
    next
      case (Inr row)
      with body have brow: "getResults_body sensorID i c w = (Inr row, c1, w1)" by simp
      from "1.prems" have rec:
        "getResults_loop sensorID (Suc i) (results[i := row]) c1 w1 = (r, c', w')"
        by (simp add: getResults_loop_next[OF True brow])
      from "1.IH"[OF True brow[symmetric] refl refl rec] c1 show ?thesis by simp
    qed
  next
    case False
    with "1.prems" show ?thesis by (simp add: getResults_loop_done)
  qed
qed

lemma wrap_int64_id: "- (2 ^ 63) \<le> x \<Longrightarrow> x < 2 ^ 63 \<Longrightarrow> wrap_int64 x = x"
  by (simp add: wrap_int64_def)

lemma getResults_loop_sent:
  assumes "getResults_loop sensorID i results c w = (r, c', w')" and "Conn c \<noteq> None"
    and "0 \<le> MessageID c" and "MessageID c + int (length results - i) < 2 ^ 63"
  shows "\<exists>n \<le> length results - i. (i < length results \<longrightarrow> 0 < n) \<and>
           sent w' = sent w @ map (\<lambda>k. StatsMessage
             (statistics_message sensorID (MessageID c + 1 + int k) (i + k)
                \<lparr>unixNano = clock w (clock_reads w + 2 * k), loc = Local w\<rparr>
                \<lparr>unixNano = clock w (clock_reads w + 2 * k + 1), loc = Local w\<rparr>)) [0..<n]"
  using assms
proof (induction sensorID i results c w rule: getResults_loop.induct)
  case (1 sensorID i results c w)
  let ?msg = "\<lambda>(c::Client) (w::'a world) i k. StatsMessage
             (statistics_message sensorID (MessageID c + 1 + int k) (i + k)
                \<lparr>unixNano = clock w (clock_reads w + 2 * k), loc = Local w\<rparr>
                \<lparr>unixNano = clock w (clock_reads w + 2 * k + 1), loc = Local w\<rparr>)"
  show ?case
  proof (cases "i < length results")
    case True
    obtain r1 c1 w1 where body: "getResults_body sensorID i c w = (r1, c1, w1)"
      by (cases "getResults_body sensorID i c w") auto
    from True "1.prems" have nowrap: "wrap_int64 (MessageID c + 1) = MessageID c + 1"
      by (intro wrap_int64_id) auto
    from getResults_body_client[OF body] nowrap
    have c1: "Conn c1 = Conn c" "MessageID c1 = MessageID c + 1" by simp_all
    from getResults_body_world[OF body "1.prems"(2)] nowrap
    have w1: "sent w1 = sent w @ [?msg c w i 0]" "clock_reads w1 = Suc (Suc (clock_reads w))"
      "clock w1 = clock w" "Local w1 = Local w"
      by simp_all
    show ?thesis
    proof (cases r1)
      case (Inl e)
      with True body "1.prems" have "w' = w1" by (simp add: getResults_loop_failed)
      with w1 True have "1 \<le> length results - i \<and> (i < length results \<longrightarrow> 0 < (1::nat)) \<and>
          sent w' = sent w @ map (?msg c w i) [0..<1]"
        by simp
      then show ?thesis by blast
    next
      case (Inr row)
      with body have brow: "getResults_body sensorID i c w = (Inr row, c1, w1)" by simp
      from "1.prems" have rec:
        "getResults_loop sensorID (Suc i) (results[i := row]) c1 w1 = (r, c', w')"
        by (simp add: getResults_loop_next[OF True brow])
      have p2: "Conn c1 \<noteq> None" using c1 "1.prems" by simp
      have p3: "0 \<le> MessageID c1" using c1 "1.prems" by simp
      have p4: "MessageID c1 + int (length (results[i := row]) - Suc i) < 2 ^ 63"
        using c1 "1.prems" True by simp
      from "1.IH"[OF True brow[symmetric] refl refl rec p2 p3 p4]
      obtain n where n: "n \<le> length results - Suc i"
        and s: "sent w' = sent w1 @ map (?msg c1 w1 (Suc i)) [0..<n]"
        by auto
      have shift: "?msg c1 w1 (Suc i) k = ?msg c w i (Suc k)" for k
        using c1 w1 by (simp add: algebra_simps)
      have "map (?msg c w i) [0..<Suc n] = ?msg c w i 0 # map (\<lambda>k. ?msg c w i (Suc k)) [0..<n]"
        by (simp only: map_upt_Suc)
      with s w1 shift have "sent w' = sent w @ map (?msg c w i) [0..<Suc n]"
        by simp
      moreover from n True have "Suc n \<le> length results - i" by simp
      ultimately show ?thesis by blast
    qed
  next
    case False
    with "1.prems" have "w' = w" by (simp add: getResults_loop_done)
    then have "0 \<le> length results - i \<and> (i < length results \<longrightarrow> 0 < (0::nat)) \<and>
        sent w' = sent w @ map (?msg c w i) [0..<0]"
      using False by simp
    then show ?thesis by blast
  qed
qed

lemma getResults_body_full_day:
  assumes "Conn c \<noteq> None" and "write_error w (length (sent w)) = None"
    and "inbox w = fr # rest" and "full_day sensorID fr"
  shows "\<exists>c' w'. getResults_body sensorID i c w = (Inr (day_row sensorID fr), c', w') \<and>
           Conn c' = Conn c \<and> inbox w' = rest \<and> length (sent w') = Suc (length (sent w)) \<and>
           write_error w' = write_error w"
proof -
  from assms(4) obtain data where data: "as_APIResponse fr = Inr data" "Success data"
      "hoursInADay \<le> length (lookup_buckets data sensorID)"
    by (auto simp: full_day_def reports_success_def response_buckets_def split: sum.splits)
  obtain r c' w' where body: "getResults_body sensorID i c w = (r, c', w')"
    by (cases "getResults_body sensorID i c w") auto
  from getResults_body_step[OF assms(1-3) data(1), of sensorID i] body
  have "r = extract_row sensorID data" "inbox w' = rest" by simp_all
  with extract_row_good[OF data(2,3)] data(1)
  have "r = Inr (day_row sensorID fr)"
    by (simp add: day_row_def response_buckets_def)
  moreover from getResults_body_client[OF body] have "Conn c' = Conn c" by simp
  moreover from getResults_body_world[OF body assms(1)]
  have "length (sent w') = Suc (length (sent w))" "write_error w' = write_error w" by simp_all
  ultimately show ?thesis using body \<open>inbox w' = rest\<close> by blast
qed

lemma getResults_loop_full_days:
  assumes "\<forall>g \<in> set goods. full_day sensorID g" and "Conn c \<noteq> None"
    and "\<forall>n < length goods. write_error w (length (sent w) + n) = None"
    and "inbox w = goods @ rest" and "i + length goods \<le> length results"
  shows "\<exists>c' w'. getResults_loop sensorID i results c w =
             getResults_loop sensorID (i + length goods)
               (take i results @ map (day_row sensorID) goods @ drop (i + length goods) results)
               c' w' \<and>
           Conn c' = Conn c \<and> inbox w' = rest \<and>
           length (sent w') = length (sent w) + length goods \<and>
           write_error w' = write_error w"
  using assms
proof (induction goods arbitrary: i results c w)
  case Nil
  then show ?case by auto
next
  case (Cons g gs)
  from Cons.prems have i: "i < length results" by simp
  from Cons.prems have w0: "write_error w (length (sent w)) = None" by auto
  from Cons.prems have g: "full_day sensorID g" by simp
  from Cons.prems have inb: "inbox w = g # (gs @ rest)" by simp
  from getResults_body_full_day[OF Cons.prems(2) w0 inb g, of i]
  obtain c1 w1 where body: "getResults_body sensorID i c w = (Inr (day_row sensorID g), c1, w1)"
    and c1: "Conn c1 = Conn c" and w1: "inbox w1 = gs @ rest"
      "length (sent w1) = Suc (length (sent w))" "write_error w1 = write_error w"
    by blast
  let ?res1 = "results[i := day_row sensorID g]"
  have step: "getResults_loop sensorID i results c w = getResults_loop sensorID (Suc i) ?res1 c1 w1"
    using getResults_loop_next[OF i body] .
  have q1: "\<forall>g \<in> set gs. full_day sensorID g" using Cons.prems by simp
  have q2: "Conn c1 \<noteq> None" using c1 Cons.prems by simp
  have q3: "\<forall>n < length gs. write_error w1 (length (sent w1) + n) = None"
  proof (intro allI impI)
    fix n assume "n < length gs"
    then have "Suc n < length (g # gs)" by simp
    with Cons.prems(3) have "write_error w (length (sent w) + Suc n) = None" by blast
    with w1 show "write_error w1 (length (sent w1) + n) = None" by simp
  qed
  have q5: "Suc i + length gs \<le> length ?res1" using Cons.prems by simp
  from Cons.IH[OF q1 q2 q3 w1(1) q5]
  obtain c' w' where rec: "getResults_loop sensorID (Suc i) ?res1 c1 w1 =
        getResults_loop sensorID (Suc i + length gs)
          (take (Suc i) ?res1 @ map (day_row sensorID) gs @ drop (Suc i + length gs) ?res1) c' w'"
    and rest: "Conn c' = Conn c1" "inbox w' = rest"
      "length (sent w') = length (sent w1) + length gs" "write_error w' = write_error w1"
    by blast
  have t: "take (Suc i) ?res1 = take i results @ [day_row sensorID g]"
    using i by (simp add: take_Suc_conv_app_nth)
  have d: "drop (Suc i + length gs) ?res1 = drop (i + length (g # gs)) results"
    by simp
  have "getResults_loop sensorID i results c w =
        getResults_loop sensorID (i + length (g # gs))
          (take i results @ map (day_row sensorID) (g # gs) @ drop (i + length (g # gs)) results)
          c' w'"
    using step rec t d by simp
  with rest c1 w1 show ?case by auto
qed

lemma getResults_rows:
  assumes "fst (getResults v c w) = Inr results"
  shows "int (length results) = Days (Config c) \<and>
         (\<forall>row \<in> set results. length row = hoursInADay)"
proof -
  let ?D = "Days (Config c)"
  from assms have ok: "\<not> (?D < 0 \<or> maxAlloc < ?D * 24)" and sid: "v ''sensor_id'' \<noteq> ''''"
    by (auto simp: getResults_def Let_def split: if_splits)
  obtain r c' w'
    where run: "getResults_loop (v ''sensor_id'') 0 (replicate (nat ?D) []) c w = (r, c', w')"
    by (cases "getResults_loop (v ''sensor_id'') 0 (replicate (nat ?D) ([]::'a list)) c w") auto
  with assms ok sid have r: "r = Inr results"
    by (simp add: getResults_def Let_def)
  from getResults_loop_shape[OF run[unfolded r]]
  have len: "length results = nat ?D"
    and rows: "\<forall>k < nat ?D. length (results ! k) = hoursInADay"
    by simp_all
  from len ok have "int (length results) = ?D" by simp
  moreover have "\<forall>row \<in> set results. length row = hoursInADay"
    using rows len by (auto simp: in_set_conv_nth)
  ultimately show ?thesis by simp
qed

lemma getResults_full_days:
  assumes "0 \<le> Days (Config c)" and "Days (Config c) * 24 \<le> maxAlloc"
    and "v ''sensor_id'' \<noteq> ''''" and "Conn c \<noteq> None"
    and "\<forall>n < length goods. write_error w (length (sent w) + n) = None"
    and "inbox w = goods @ rest" and "length goods = nat (Days (Config c))"
    and "\<forall>g \<in> set goods. full_day (v ''sensor_id'') g"
  shows "fst (getResults v c w) = Inr (map (day_row (v ''sensor_id'')) goods)"
proof -
  let ?res = "replicate (nat (Days (Config c))) []"
  have "0 + length goods \<le> length ?res" using assms(7) by simp
  from getResults_loop_full_days[OF assms(8) assms(4) assms(5) assms(6) this]
  obtain c' w' where "getResults_loop (v ''sensor_id'') 0 ?res c w =
      getResults_loop (v ''sensor_id'') (length goods)
        (map (day_row (v ''sensor_id'')) goods) c' w'"
    using assms(7) by auto
  then have "getResults_loop (v ''sensor_id'') 0 ?res c w =
      (Inr (map (day_row (v ''sensor_id'')) goods), c', w')"
    by (simp add: getResults_loop_done)
  with assms(1-3) show ?thesis
    by (simp add: getResults_def Let_def)
qed

lemma two_days_full: "\<forall>g \<in> set two_days. full_day ''sensor.power'' g"
  by (simp add: two_days_def full_day_def reports_success_def response_buckets_def
      stats_frame_def lookup_buckets_def hoursInADay_def)

lemma two_days_rows: "map (day_row ''sensor.power'') two_days = replicate 2 (replicate 24 1)"
  by (simp add: two_days_def day_row_def response_buckets_def stats_frame_def
      lookup_buckets_def hoursInADay_def numeral_2_eq_2 eval_nat_numeral)

lemma two_days_run:
  "fst (getResults example_viper (connected_client 2) (example_world two_days)) =
     Inr (replicate 2 (replicate 24 1))"
proof -
  have "fst (getResults example_viper (connected_client 2) (example_world two_days)) =
          Inr (map (day_row (example_viper ''sensor_id'')) two_days)"
    using two_days_full
    by (intro getResults_full_days[where rest = "[]"])
       (simp_all add: connected_client_def example_client_def New_def example_viper_def
          example_world_def maxAlloc_def two_days_def)
  then show ?thesis
    by (simp add: two_days_rows example_viper_def)
qed

lemma getResults_config:
  "getResults v c w = (r, c', w') \<Longrightarrow> Config c' = Config c"
  by (auto simp: getResults_def Let_def split: if_splits dest: getResults_loop_client)

section \<open>Stopping at a response, and the requests sent\<close>


lemma getResults_stops:
  assumes "0 \<le> Days (Config c)" and "Days (Config c) * 24 \<le> maxAlloc"
    and "v ''sensor_id'' \<noteq> ''''" and "Conn c \<noteq> None"
    and "\<forall>n \<le> length goods. write_error w (length (sent w) + n) = None"
    and "inbox w = goods @ fr # rest" and "length goods < nat (Days (Config c))"
    and "\<forall>g \<in> set goods. full_day (v ''sensor_id'') g"
    and "as_APIResponse fr = Inr data" and "extract_row (v ''sensor_id'') data = Inl e"
  shows "fst (getResults v c w) = Inl e"
proof -
  let ?s = "v ''sensor_id''"
  let ?res = "replicate (nat (Days (Config c))) []"
  let ?mid = "take 0 ?res @ map (day_row ?s) goods @ drop (0 + length goods) ?res"
  have le: "0 + length goods \<le> length ?res" using assms(7) by simp
  have wr: "\<forall>n < length goods. write_error w (length (sent w) + n) = None"
    using assms(5) by simp
  from getResults_loop_full_days[OF assms(8) assms(4) wr assms(6) le]
  obtain c' w' where eq: "getResults_loop ?s 0 ?res c w =
        getResults_loop ?s (0 + length goods) ?mid c' w'"
    and st: "Conn c' = Conn c" "inbox w' = fr # rest"
      "length (sent w') = length (sent w) + length goods" "write_error w' = write_error w"
    by blast
  have conn: "Conn c' \<noteq> None" using st assms(4) by simp
  have wok: "write_error w' (length (sent w')) = None" using st assms(5) by simp
  obtain r c'' w'' where body: "getResults_body ?s (0 + length goods) c' w' = (r, c'', w'')"
    by (cases "getResults_body ?s (0 + length goods) c' w'") auto
  from getResults_body_step(1)[OF conn wok st(2) assms(9), of ?s "0 + length goods"] body assms(10)
  have "r = Inl e" by simp
  with body have b: "getResults_body ?s (0 + length goods) c' w' = (Inl e, c'', w'')" by simp
  have "0 + length goods < length ?mid" using assms(7) by simp
  from getResults_loop_failed[OF this b] eq
  have "getResults_loop ?s 0 ?res c w = (Inl e, c'', w'')" by simp
  with assms(1-3) show ?thesis by (simp add: getResults_def Let_def)
qed

lemma req_id_statistics_message [simp]:
  "req_id (statistics_message sensorID n i t u) = n"
  by (simp add: statistics_message_def Let_def)

lemma days_bound:
  assumes "\<not> (d < 0 \<or> maxAlloc < d * 24)"
  shows "1 + int (length (replicate (nat d) x) - 0) < 2 ^ 63"
proof -
  from assms have "0 \<le> d" and "d * 24 \<le> 281474976710656"
    by (simp_all add: maxAlloc_def)
  then have "d < 9223372036854775807" by linarith
  with \<open>0 \<le> d\<close> show ?thesis by simp
qed

lemma getResults_sent:
  assumes "getResults v c w = (r, c', w')" and "Conn c \<noteq> None" and "MessageID c = 1"
  shows "\<exists>n \<le> nat (Days (Config c)).
           (r \<noteq> Inl (Panic MakesliceLenOutOfRange) \<and> r \<noteq> Inl (Err ''sensor_id is required'') \<and>
              0 < Days (Config c) \<longrightarrow> 0 < n) \<and>
           sent w' = sent w @ map (\<lambda>k. StatsMessage
             (statistics_message (v ''sensor_id'') (2 + int k) k
                \<lparr>unixNano = clock w (clock_reads w + 2 * k), loc = Local w\<rparr>
                \<lparr>unixNano = clock w (clock_reads w + 2 * k + 1), loc = Local w\<rparr>)) [0..<n]"
proof (cases "Days (Config c) < 0 \<or> maxAlloc < Days (Config c) * 24")
  case True
  with assms(1) have "w' = w" and "r = Inl (Panic MakesliceLenOutOfRange)"
    by (simp_all add: getResults_def)
  then show ?thesis by (intro exI[of _ 0]) simp
next
  case valid: False
  show ?thesis
  proof (cases "v ''sensor_id'' = ''''")
    case True
    with valid assms(1) have "w' = w" and "r = Inl (Err ''sensor_id is required'')"
      by (simp_all add: getResults_def Let_def)
    then show ?thesis by (intro exI[of _ 0]) simp
  next
    case False
    let ?res = "replicate (nat (Days (Config c))) ([]::'a list)"
    from False valid assms(1)
    have run: "getResults_loop (v ''sensor_id'') 0 ?res c w = (r, c', w')"
      by (simp add: getResults_def Let_def)
    have bound: "MessageID c + int (length ?res - 0) < 2 ^ 63"
      using days_bound[OF valid] assms(3) by (simp only:)
    have nonneg: "0 \<le> MessageID c" using assms(3) by simp
    from getResults_loop_sent[OF run assms(2) nonneg bound]
    obtain n where H: "n \<le> length ?res - 0 \<and> (0 < length ?res \<longrightarrow> 0 < n) \<and>
           sent w' = sent w @ map (\<lambda>k. StatsMessage
             (statistics_message (v ''sensor_id'') (MessageID c + 1 + int k) (0 + k)
                \<lparr>unixNano = clock w (clock_reads w + 2 * k), loc = Local w\<rparr>
                \<lparr>unixNano = clock w (clock_reads w + 2 * k + 1), loc = Local w\<rparr>)) [0..<n]"
      ..
    show ?thesis
    proof (intro exI[of _ n] conjI impI)
      from H show "n \<le> nat (Days (Config c))" by simp
    next
      assume "r \<noteq> Inl (Panic MakesliceLenOutOfRange) \<and>
        r \<noteq> Inl (Err ''sensor_id is required'') \<and> 0 < Days (Config c)"
      then have "0 < length ?res" by simp
      with H show "0 < n" by (simp only:)
    next
      from H have "sent w' = sent w @ map (\<lambda>k. StatsMessage
             (statistics_message (v ''sensor_id'') (MessageID c + 1 + int k) (0 + k)
                \<lparr>unixNano = clock w (clock_reads w + 2 * k), loc = Local w\<rparr>
                \<lparr>unixNano = clock w (clock_reads w + 2 * k + 1), loc = Local w\<rparr>)) [0..<n]"
        by (elim conjE)
      then show "sent w' = sent w @ map (\<lambda>k. StatsMessage
             (statistics_message (v ''sensor_id'') (2 + int k) k
                \<lparr>unixNano = clock w (clock_reads w + 2 * k), loc = Local w\<rparr>
                \<lparr>unixNano = clock w (clock_reads w + 2 * k + 1), loc = Local w\<rparr>)) [0..<n]"
        by (simp add: assms(3))
    qed
  qed
qed

lemma getResults_loop_counter:
  assumes "getResults_loop sensorID i results c w = (r, c', w')" and "Conn c \<noteq> None"
    and "0 \<le> MessageID c" and "MessageID c + int (length results - i) < 2 ^ 63"
  shows "MessageID c' - int (length (sent w')) = MessageID c - int (length (sent w)) \<and>
         (\<forall>res. r = Inr res \<longrightarrow> length (sent w') = length (sent w) + (length results - i))"
  using assms
proof (induction sensorID i results c w rule: getResults_loop.induct)
  case (1 sensorID i results c w)
  show ?case
  proof (cases "i < length results")
    case True
    obtain r1 c1 w1 where body: "getResults_body sensorID i c w = (r1, c1, w1)"
      by (cases "getResults_body sensorID i c w") auto
    from True "1.prems" have nowrap: "wrap_int64 (MessageID c + 1) = MessageID c + 1"
      by (intro wrap_int64_id) auto
    from getResults_body_client[OF body] nowrap
    have c1: "Conn c1 = Conn c" "MessageID c1 = MessageID c + 1" by simp_all
    from getResults_body_world(1)[OF body "1.prems"(2)]
    have w1: "length (sent w1) = Suc (length (sent w))" by simp
    show ?thesis
    proof (cases r1)
      case (Inl e)
      with True body "1.prems"(1) have "r = Inl e" "c' = c1" "w' = w1"
        by (simp_all add: getResults_loop_failed)
      with c1 w1 show ?thesis by simp
    next
      case (Inr row)
      with body have brow: "getResults_body sensorID i c w = (Inr row, c1, w1)" by simp
      from "1.prems"(1) have rec:
        "getResults_loop sensorID (Suc i) (results[i := row]) c1 w1 = (r, c', w')"
        by (simp add: getResults_loop_next[OF True brow])
      have p2: "Conn c1 \<noteq> None" using c1 "1.prems" by simp
      have p3: "0 \<le> MessageID c1" using c1 "1.prems" by simp
      have p4: "MessageID c1 + int (length (results[i := row]) - Suc i) < 2 ^ 63"
        using c1 "1.prems" True by simp
      from "1.IH"[OF True brow[symmetric] refl refl rec p2 p3 p4]
      have ih1: "MessageID c' - int (length (sent w')) = MessageID c1 - int (length (sent w1))"
        and ih2: "\<forall>res. r = Inr res \<longrightarrow>
            length (sent w') = length (sent w1) + (length (results[i := row]) - Suc i)"
        by simp_all
      from ih1 c1 w1
      have a: "MessageID c' - int (length (sent w')) = MessageID c - int (length (sent w))"
        by simp
      have b: "\<forall>res. r = Inr res \<longrightarrow> length (sent w') = length (sent w) + (length results - i)"
      proof (intro allI impI)
        fix res assume "r = Inr res"
        with ih2 have "length (sent w') = length (sent w1) + (length (results[i := row]) - Suc i)"
          by (simp only:)
        with w1 True show "length (sent w') = length (sent w) + (length results - i)"
          by simp
      qed
      from a b show ?thesis by (rule conjI)
    qed
  next
    case False
    with "1.prems"(1) have "r = Inr results" "c' = c" "w' = w"
      by (simp_all add: getResults_loop_done)
    with False show ?thesis by simp
  qed
qed

lemma getResults_requests:
  assumes "getResults v c w = (r, c', w')" and "Conn c \<noteq> None" and "MessageID c = 1"
  shows "\<exists>n \<le> nat (Days (Config c)).
           (0 < Days (Config c) \<and> Days (Config c) * 24 \<le> maxAlloc \<and> v ''sensor_id'' \<noteq> ''''
              \<longrightarrow> 0 < n) \<and>
           (\<forall>res. r = Inr res \<longrightarrow> n = nat (Days (Config c))) \<and>
           MessageID c' = 1 + int n \<and>
           sent w' = sent w @ map (\<lambda>k. StatsMessage
             (statistics_message (v ''sensor_id'') (2 + int k) k
                \<lparr>unixNano = clock w (clock_reads w + 2 * k), loc = Local w\<rparr>
                \<lparr>unixNano = clock w (clock_reads w + 2 * k + 1), loc = Local w\<rparr>)) [0..<n]"
proof (cases "Days (Config c) < 0 \<or> maxAlloc < Days (Config c) * 24")
  case True
  with assms(1) have "w' = w" and "c' = c" and "r = Inl (Panic MakesliceLenOutOfRange)"
    by (simp_all add: getResults_def)
  moreover from True
  have "\<not> (0 < Days (Config c) \<and> Days (Config c) * 24 \<le> maxAlloc \<and> v ''sensor_id'' \<noteq> '''')"
    by linarith
  ultimately show ?thesis using assms(3) by (intro exI[of _ 0]) simp
next
  case valid: False
  show ?thesis
  proof (cases "v ''sensor_id'' = ''''")
    case True
    with valid assms(1) have "w' = w" and "c' = c" and "r = Inl (Err ''sensor_id is required'')"
      by (simp_all add: getResults_def Let_def)
    with True assms(3) show ?thesis by (intro exI[of _ 0]) simp
  next
    case False
    let ?res = "replicate (nat (Days (Config c))) ([]::'a list)"
    from False valid assms(1)
    have run: "getResults_loop (v ''sensor_id'') 0 ?res c w = (r, c', w')"
      by (simp add: getResults_def Let_def)
    have bound: "MessageID c + int (length ?res - 0) < 2 ^ 63"
      using days_bound[OF valid] assms(3) by (simp only:)
    have nonneg: "0 \<le> MessageID c" using assms(3) by simp
    from getResults_loop_sent[OF run assms(2) nonneg bound]
    obtain n where H: "n \<le> length ?res - 0 \<and> (0 < length ?res \<longrightarrow> 0 < n) \<and>
           sent w' = sent w @ map (\<lambda>k. StatsMessage
             (statistics_message (v ''sensor_id'') (MessageID c + 1 + int k) (0 + k)
                \<lparr>unixNano = clock w (clock_reads w + 2 * k), loc = Local w\<rparr>
                \<lparr>unixNano = clock w (clock_reads w + 2 * k + 1), loc = Local w\<rparr>)) [0..<n]"
      ..
    from H have s: "sent w' = sent w @ map (\<lambda>k. StatsMessage
             (statistics_message (v ''sensor_id'') (MessageID c + 1 + int k) (0 + k)
                \<lparr>unixNano = clock w (clock_reads w + 2 * k), loc = Local w\<rparr>
                \<lparr>unixNano = clock w (clock_reads w + 2 * k + 1), loc = Local w\<rparr>)) [0..<n]"
      by (elim conjE)
    then have len: "length (sent w') = length (sent w) + n" by simp
    from getResults_loop_counter[OF run assms(2) nonneg bound]
    have cnt: "MessageID c' - int (length (sent w')) = MessageID c - int (length (sent w))"
      and full: "\<forall>res. r = Inr res \<longrightarrow> length (sent w') = length (sent w) + (length ?res - 0)"
      by (rule conjunct1, rule conjunct2)
    show ?thesis
    proof (intro exI[of _ n] conjI impI allI)
      from H show "n \<le> nat (Days (Config c))" by simp
    next
      assume "0 < Days (Config c) \<and> Days (Config c) * 24 \<le> maxAlloc \<and> v ''sensor_id'' \<noteq> ''''"
      then have "0 < length ?res" by simp
      moreover from H have "0 < length ?res \<longrightarrow> 0 < n" by (elim conjE)
      ultimately show "0 < n" by (simp only:)
    next
      fix res assume "r = Inr res"
      with full have "length (sent w') = length (sent w) + (length ?res - 0)" by (simp only:)
      with len show "n = nat (Days (Config c))" by simp
    next
      from cnt len assms(3) show "MessageID c' = 1 + int n" by simp
    next
      from s show "sent w' = sent w @ map (\<lambda>k. StatsMessage
             (statistics_message (v ''sensor_id'') (2 + int k) k
                \<lparr>unixNano = clock w (clock_reads w + 2 * k), loc = Local w\<rparr>
                \<lparr>unixNano = clock w (clock_reads w + 2 * k + 1), loc = Local w\<rparr>)) [0..<n]"
        by (simp add: assms(3))
    qed
  qed
qed

section \<open>The averages\<close>

lemma column_sum_foldl:
  "\<forall>row \<in> set rows. i < length row \<Longrightarrow>
   column_sum rows i acc = Inr (foldl (+) acc (map (\<lambda>row. row ! i) rows))"
  by (induction rows arbitrary: acc) simp_all

lemma averages_loop_closed:
  assumes "\<forall>row \<in> set results. length averages \<le> length row" and "i \<le> length averages"
  shows "averages_loop float64 days results i averages =
           Inr (take i averages @
                map (\<lambda>h. foldl (+) 0 (map (\<lambda>row. row ! h) results) / float64 days)
                    [i..<length averages])"
  using assms
proof (induction float64 days results i averages rule: averages_loop.induct)
  case (1 float64 days results i averages)
  let ?avg = "\<lambda>h. foldl (+) 0 (map (\<lambda>row. row ! h) results) / float64 days"
  show ?case
  proof (cases "i < length averages")
    case True
    with "1.prems" have inb: "\<forall>row \<in> set results. i < length row" by auto
    have col: "column_sum results i 0 = Inr (foldl (+) 0 (map (\<lambda>row. row ! i) results))"
      using column_sum_foldl[OF inb] .
    let ?next = "averages[i := ?avg i]"
    have p1: "\<forall>row \<in> set results. length ?next \<le> length row" using "1.prems" by simp
    have p2: "Suc i \<le> length ?next" using True by simp
    from "1.IH"[OF True col p1 p2]
    have "averages_loop float64 days results (Suc i) ?next =
            Inr (take (Suc i) ?next @ map ?avg [Suc i..<length ?next])" .
    moreover have "take (Suc i) ?next = take i averages @ [?avg i]"
      using True by (simp add: take_Suc_conv_app_nth)
    moreover have "[i..<length averages] = i # [Suc i..<length averages]"
      using True by (simp add: upt_conv_Cons)
    ultimately show ?thesis
      using True col by (subst averages_loop.simps) simp
  next
    case False
    with "1.prems" show ?thesis by (subst averages_loop.simps) simp
  qed
qed

lemma ComputePowerStats_averages:
  assumes "fst (getResults v c w) = Inr results"
  shows "\<exists>r. fst (ComputePowerStats float64 v c w) = Inr r \<and>
           averages_of r =
             map (\<lambda>h. foldl (+) 0 (map (\<lambda>row. row ! h) results) / float64 (Days (Config c)))
                 [0..<hoursInADay]"
proof -
  obtain c' w' where run: "getResults v c w = (Inr results, c', w')"
    using assms by (cases "getResults v c w") auto
  from getResults_config[OF run] have cfg: "Config c' = Config c" .
  from getResults_rows[OF assms]
  have rows: "\<forall>row \<in> set results. length (replicate hoursInADay (0::'a)) \<le> length row"
    by simp
  have "averages_loop float64 (Days (Config c')) results 0 (replicate hoursInADay 0) =
          Inr (map (\<lambda>h. foldl (+) 0 (map (\<lambda>row. row ! h) results) / float64 (Days (Config c)))
                 [0..<hoursInADay])"
    using averages_loop_closed[OF rows, of 0 float64 "Days (Config c')"] cfg by simp
  with run show ?thesis
    by (simp add: ComputePowerStats_def Let_def)
qed

section \<open>The handshake\<close>

lemma handshake_client:
  assumes "handshake v c conn w = (r, c', w')"
  shows "(r \<noteq> None \<longrightarrow> c' = c) \<and> (r = None \<longrightarrow> c' = c\<lparr>Conn := Some conn\<rparr>)"
  using assms
  by (auto simp: handshake_def ReadJSON_def WriteJSON_def
           split: prod.splits option.splits error.splits sum.splits list.splits if_splits)


lemma handshake_rejected:
  assumes "inbox w = hello # reply # rest" and "as_map hello = Inr initMsg"
    and "write_error w (length (sent w)) = None" and "as_map reply = Inr authResp"
    and "index_any authResp ''type'' \<noteq> Str ''auth_ok''"
  shows "fst (handshake v c conn w) =
           Some (Err (''authentication failed: '' @ fmt_v (index_any authResp ''message'')))"
  using assms
  by (simp add: handshake_def ReadJSON_def WriteJSON_def)

lemma handshake_accepted:
  assumes "inbox w = hello # reply # rest" and "as_map hello = Inr initMsg"
    and "write_error w (length (sent w)) = None" and "as_map reply = Inr authResp"
    and "index_any authResp ''type'' = Str ''auth_ok''"
  shows "handshake v c conn w =
           (None, c\<lparr>Conn := Some conn\<rparr>,
            w\<lparr>inbox := rest,
              sent := sent w @ [AuthMessage [(''type'', ''auth''), (''access_token'', v ''api_key'')]]\<rparr>)"
  using assms
  by (simp add: handshake_def ReadJSON_def WriteJSON_def)

lemma Connect_client:
  assumes "Connect v c w = (r, c', w')"
  shows "MessageID c' = 1 \<and> Config c' = Config c \<and> (r \<noteq> None \<longrightarrow> Conn c' = Conn c) \<and>
         (r = None \<longrightarrow> Conn c' \<noteq> None)"
proof (cases "v ''url'' = ''''")
  case True
  with assms show ?thesis by (auto simp: Connect_def)
next
  case False
  show ?thesis
  proof (cases "url_Parse w (v ''url'')")
    case (Inl e)
    with False assms show ?thesis by (auto simp: Connect_def)
  next
    case (Inr parsed)
    let ?c = "c\<lparr>MessageID := 1\<rparr>"
    let ?target = "URL_String w ((rewrite_scheme parsed)\<lparr>Path := ''/api/websocket''\<rparr>)"
    let ?w1 = "w\<lparr>dialed := dialed w @ [(?target, Insecure (Config c))]\<rparr>"
    show ?thesis
    proof (cases "Dial w ?target (Insecure (Config c))")
      case (Some e)
      with False Inr assms show ?thesis by (auto simp: Connect_def Let_def)
    next
      case None
      with False Inr assms have "handshake v ?c (WebsocketConn ?target) ?w1 = (r, c', w')"
        by (simp add: Connect_def Let_def)
      from handshake_client[OF this] show ?thesis by auto
    qed
  qed
qed

lemma Connect_no_url:
  "v ''url'' = '''' \<Longrightarrow> Connect v c w = (Some (Err ''url is required''), c\<lparr>MessageID := 1\<rparr>, w)"
  by (simp add: Connect_def)


lemma Connect_rejected:
  assumes "v ''url'' \<noteq> ''''" and "url_Parse w (v ''url'') = Inr parsed"
    and "Dial w (URL_String w ((rewrite_scheme parsed)\<lparr>Path := ''/api/websocket''\<rparr>))
           (Insecure (Config c)) = None"
    and "inbox w = hello # reply # rest" and "as_map hello = Inr initMsg"
    and "write_error w (length (sent w)) = None" and "as_map reply = Inr authResp"
    and "index_any authResp ''type'' \<noteq> Str ''auth_ok''"
  shows "fst (Connect v c w) =
           Some (Err (''authentication failed: '' @ fmt_v (index_any authResp ''message'')))"
proof -
  let ?target = "URL_String w ((rewrite_scheme parsed)\<lparr>Path := ''/api/websocket''\<rparr>)"
  let ?w1 = "w\<lparr>dialed := dialed w @ [(?target, Insecure (Config c))]\<rparr>"
  have "fst (handshake v (c\<lparr>MessageID := 1\<rparr>) (WebsocketConn ?target) ?w1) =
          Some (Err (''authentication failed: '' @ fmt_v (index_any authResp ''message'')))"
    using assms(4-8) by (intro handshake_rejected[where rest = rest and initMsg = initMsg]) simp_all
  with assms(1-3) show ?thesis by (simp add: Connect_def Let_def)
qed

section \<open>Facts about the concrete run\<close>

lemma connected_client_simps:
  "Days (Config (connected_client n)) = n" "Conn (connected_client n) \<noteq> None"
  "MessageID (connected_client n) = 1"
  by (simp_all add: connected_client_def example_client_def New_def)

lemma example_world_simps:
  "write_error (example_world fs) n = None" "inbox (example_world fs) = fs"
  "sent (example_world fs) = []" "clock_reads (example_world fs) = 0"
  "clock (example_world fs) k = 1718440200000000000 + int k * 1000000"
  "Local (example_world fs) = (\<lambda>unix. 7200)"
  by (simp_all add: example_world_def)

lemma example_sensor: "example_viper ''sensor_id'' = ''sensor.power''"
  by (simp add: example_viper_def)

lemma stats_frame_full_day: "full_day ''sensor.power'' (stats_frame n ''sensor.power'' (replicate 24 1))"
  by (simp add: full_day_def reports_success_def response_buckets_def
      stats_frame_def lookup_buckets_def hoursInADay_def)

lemma example_url: "example_viper ''url'' \<noteq> ''''"
  by (simp add: example_viper_def)

lemma example_parsed: "url_Parse (example_world fs) (example_viper ''url'') = Inr example_URL"
  by (simp add: example_world_def example_viper_def example_Parse_def example_URL_def)

lemma example_target:
  "URL_String (example_world fs) ((rewrite_scheme example_URL)\<lparr>Path := ''/api/websocket''\<rparr>) =
     ''ws://ha.local:8123/api/websocket?kiosk=1''"
  by (simp add: example_world_def rewrite_scheme_def URL_String_plain_def example_URL_def)


lemma example_Connect:
  "Connect example_viper (example_client n) (example_world (hello_frame # auth_ok_frame # fs)) =
     (None, connected_client n,
      (example_world fs)\<lparr>dialed := [(''ws://ha.local:8123/api/websocket?kiosk=1'', False)],
        sent := [AuthMessage [(''type'', ''auth''), (''access_token'', ''secret'')]]\<rparr>)"
proof -
  let ?w = "example_world (hello_frame # auth_ok_frame # fs)"
  let ?target = "''ws://ha.local:8123/api/websocket?kiosk=1''"
  let ?w1 = "?w\<lparr>dialed := dialed ?w @ [(?target, False)]\<rparr>"
  have target: "URL_String ?w ((rewrite_scheme \<lparr>Scheme = ''http'', Opaque = '''', User = None, Host = ''ha.local:8123'',
                Path = ''/lovelace'', RawPath = '''', OmitHost = False, ForceQuery = False,
                RawQuery = ''kiosk=1'', Fragment = '''', RawFragment = ''''\<rparr>)\<lparr>Path := ''/api/websocket''\<rparr>) = ?target"
    by (simp add: example_world_def rewrite_scheme_def URL_String_plain_def)
  have h: "handshake example_viper ((example_client n)\<lparr>MessageID := 1\<rparr>) (WebsocketConn ?target) ?w1 =
      (None, (example_client n)\<lparr>MessageID := 1, Conn := Some (WebsocketConn ?target)\<rparr>,
       ?w1\<lparr>inbox := fs, sent := sent ?w1 @ [AuthMessage [(''type'', ''auth''), (''access_token'', example_viper ''api_key'')]]\<rparr>)"
    by (rule handshake_accepted[where hello = hello_frame and reply = auth_ok_frame
          and initMsg = "[''type'' \<mapsto> Str ''auth_required'']"
          and authResp = "[''type'' \<mapsto> Str ''auth_ok'']"])
       (simp_all add: example_world_def hello_frame_def auth_ok_frame_def message_frame_def index_any_def)
  have parse: "url_Parse ?w (example_viper ''url'') = Inr \<lparr>Scheme = ''http'', Opaque = '''', User = None, Host = ''ha.local:8123'',
                Path = ''/lovelace'', RawPath = '''', OmitHost = False, ForceQuery = False,
                RawQuery = ''kiosk=1'', Fragment = '''', RawFragment = ''''\<rparr>"
    by (simp add: example_world_def example_viper_def example_Parse_def example_URL_def)
  have url: "example_viper ''url'' \<noteq> ''''" by (simp add: example_viper_def)
  have dial: "Dial ?w ?target False = None" by (simp add: example_world_def)
  have ins: "Insecure (Config (example_client n)) = False" by (simp add: example_client_def New_def)
  have "Connect example_viper (example_client n) ?w =
      (None, (example_client n)\<lparr>MessageID := 1, Conn := Some (WebsocketConn ?target)\<rparr>,
       ?w1\<lparr>inbox := fs, sent := sent ?w1 @ [AuthMessage [(''type'', ''auth''), (''access_token'', example_viper ''api_key'')]]\<rparr>)"
    unfolding Connect_def Let_def using url parse target dial ins h by simp
  then show ?thesis
    by (simp add: connected_client_def example_world_def example_viper_def)
qed

lemma example_rejected:
  "fst (Connect example_viper c (example_world [hello_frame, auth_invalid_frame])) =
     Some (Err (''authentication failed: '' @
       fmt_v (index_any [''message'' \<mapsto> Str ''Invalid access token or password'',
                         ''type'' \<mapsto> Str ''auth_invalid''] ''message'')))"
  by (rule Connect_rejected[where v = example_viper and parsed = example_URL and hello = hello_frame
        and reply = auth_invalid_frame and rest = "[]"
        and initMsg = "[''type'' \<mapsto> Str ''auth_required'']"])
     (simp_all add: example_url example_parsed example_world_simps example_target
        hello_frame_def auth_invalid_frame_def message_frame_def index_any_def,
      simp add: example_world_def)

lemma example_start_instant:
  "Time_Truncate (Time_Add \<lparr>unixNano = 1718440200000000000, loc = z\<rparr> (Duration_neg (day_offset 0)))
      (Duration_mul 24 Hour) = \<lparr>unixNano = 1718323200000000000, loc = z\<rparr>"
  by (simp add: Time_Truncate_def Time_Add_def Duration_neg_def day_offset_def Duration_mul_def
      wrap_int64_def Hour_def unixToInternal_def)

lemma example_end_instant:
  "Time_Truncate \<lparr>unixNano = 1718440200001000000, loc = z\<rparr> (Duration_mul 24 Hour) =
     \<lparr>unixNano = 1718409600000000000, loc = z\<rparr>"
  by (simp add: Time_Truncate_def Duration_mul_def wrap_int64_def Hour_def unixToInternal_def)

lemma example_start_local:
  "Time_Format \<lparr>unixNano = 1718323200000000000, loc = (\<lambda>unix. 7200)\<rparr> =
     ''2024-06-14T02:00:00.000Z''"
  by code_simp

lemma example_end_local:
  "Time_Format \<lparr>unixNano = 1718409600000000000, loc = (\<lambda>unix. 7200)\<rparr> =
     ''2024-06-15T02:00:00.000Z''"
  by code_simp

lemma example_start_UTC:
  "Time_Format \<lparr>unixNano = 1718323200000000000, loc = UTC_Location\<rparr> =
     ''2024-06-14T00:00:00.000Z''"
  by code_simp

lemma example_end_UTC:
  "Time_Format \<lparr>unixNano = 1718409600000000000, loc = UTC_Location\<rparr> =
     ''2024-06-15T00:00:00.000Z''"
  by code_simp

lemma Time_UTC_simp: "Time_UTC \<lparr>unixNano = n, loc = z\<rparr> = \<lparr>unixNano = n, loc = UTC_Location\<rparr>"
  by (simp add: Time_UTC_def)

lemma one_day_requests:
  "sent (snd (snd (getResults example_viper (connected_client 1) (example_world one_day)))) =
     [StatsMessage (statistics_message ''sensor.power'' 2 0
        \<lparr>unixNano = 1718440200000000000, loc = (\<lambda>unix. 7200)\<rparr>
        \<lparr>unixNano = 1718440200001000000, loc = (\<lambda>unix. 7200)\<rparr>)]"
proof -
  let ?w = "example_world one_day"
  let ?c = "connected_client 1"
  let ?r = "fst (getResults example_viper ?c ?w)"
  let ?w' = "snd (snd (getResults example_viper ?c ?w))"
  have run: "getResults example_viper ?c ?w = (?r, fst (snd (getResults example_viper ?c ?w)), ?w')"
    by simp
  have ok: "?r = Inr (map (day_row (example_viper ''sensor_id'')) one_day)"
    by (rule getResults_full_days[where rest = "[]"])
       (simp_all add: connected_client_simps example_world_simps example_sensor maxAlloc_def
          one_day_def stats_frame_full_day)
  have r: "?r \<noteq> Inl (Panic MakesliceLenOutOfRange) \<and> ?r \<noteq> Inl (Err ''sensor_id is required'') \<and>
           0 < Days (Config ?c)"
    by (simp add: ok connected_client_simps)
  from getResults_sent[OF run connected_client_simps(2) connected_client_simps(3)]
  obtain n where H: "n \<le> nat (Days (Config ?c)) \<and>
           (?r \<noteq> Inl (Panic MakesliceLenOutOfRange) \<and> ?r \<noteq> Inl (Err ''sensor_id is required'') \<and>
              0 < Days (Config ?c) \<longrightarrow> 0 < n) \<and>
           sent ?w' = sent ?w @ map (\<lambda>k. StatsMessage
             (statistics_message (example_viper ''sensor_id'') (2 + int k) k
                \<lparr>unixNano = clock ?w (clock_reads ?w + 2 * k), loc = Local ?w\<rparr>
                \<lparr>unixNano = clock ?w (clock_reads ?w + 2 * k + 1), loc = Local ?w\<rparr>)) [0..<n]"
    ..
  from H have imp: "?r \<noteq> Inl (Panic MakesliceLenOutOfRange) \<and>
      ?r \<noteq> Inl (Err ''sensor_id is required'') \<and> 0 < Days (Config ?c) \<longrightarrow> 0 < n"
    by (elim conjE)
  from imp r have "0 < n" by (rule mp)
  moreover from H have "n \<le> 1" by (simp add: connected_client_simps)
  ultimately have n: "n = 1" by simp
  from H have "sent ?w' = sent ?w @ map (\<lambda>k. StatsMessage
             (statistics_message (example_viper ''sensor_id'') (2 + int k) k
                \<lparr>unixNano = clock ?w (clock_reads ?w + 2 * k), loc = Local ?w\<rparr>
                \<lparr>unixNano = clock ?w (clock_reads ?w + 2 * k + 1), loc = Local ?w\<rparr>)) [0..<n]"
    by (elim conjE)
  then show ?thesis
    by (simp add: n example_world_simps example_sensor)
qed

lemma connected_run:
  "fst (getResults example_viper (connected_client 2)
         ((example_world two_days)
            \<lparr>dialed := [(''ws://ha.local:8123/api/websocket?kiosk=1'', False)],
             sent := [AuthMessage [(''type'', ''auth''), (''access_token'', ''secret'')]]\<rparr>)) =
     Inr (replicate 2 (replicate 24 1))"
proof -
  let ?w = "(example_world two_days)
            \<lparr>dialed := [(''ws://ha.local:8123/api/websocket?kiosk=1'', False)],
             sent := [AuthMessage [(''type'', ''auth''), (''access_token'', ''secret'')]]\<rparr>"
  have "fst (getResults example_viper (connected_client 2) ?w) =
          Inr (map (day_row (example_viper ''sensor_id'')) two_days)"
    using two_days_full
    by (intro getResults_full_days[where rest = "[]"])
       (simp_all add: connected_client_simps example_world_simps example_sensor maxAlloc_def
          two_days_def)
  then show ?thesis
    by (simp add: two_days_rows example_sensor)
qed

section \<open>The claims\<close>

text \<open>
  C1.  After every successful collection run the averages vector computed by
  \<^verbatim>\<open>ComputePowerStats\<close> has exactly 24 entries, and its entry for hour \<open>h\<close> is the sum of
  column \<open>h\<close> over the rows of the matrix, accumulated from \<open>0\<close> in row order, divided by
  \<^verbatim>\<open>float64(Config.Days)\<close>: the configured day count, not a count of rows.  The statement
  holds for any reading of the floating-point addition, division and conversion.
\<close>

theorem averages_vector:
  assumes "fst (getResults v c w) = Inr results"
  shows "\<exists>r. fst (ComputePowerStats float64 v c w) = Inr r \<and>
           length (averages_of r) = 24 \<and>
           (\<forall>h < 24. averages_of r ! h =
              foldl (+) 0 (map (\<lambda>row. row ! h) results) / float64 (Days (Config c)))"
proof -
  from ComputePowerStats_averages[OF assms, of float64]
  obtain r where r: "fst (ComputePowerStats float64 v c w) = Inr r"
    and avs: "averages_of r =
             map (\<lambda>h. foldl (+) 0 (map (\<lambda>row. row ! h) results) / float64 (Days (Config c)))
                 [0..<hoursInADay]"
    by blast
  from avs have "length (averages_of r) = 24" by (simp add: hoursInADay_def)
  moreover from avs have "\<forall>h < 24. averages_of r ! h =
              foldl (+) 0 (map (\<lambda>row. row ! h) results) / float64 (Days (Config c))"
    by (simp add: hoursInADay_def)
  ultimately show ?thesis using r by blast
qed

theorem averages_vector_witness:
  "fst (getResults example_viper (connected_client 2) (example_world two_days)) =
     Inr (replicate 2 (replicate 24 1)) \<and>
   (\<exists>r. fst (ComputePowerStats real_of_int example_viper (connected_client 2)
               (example_world two_days)) = Inr r \<and>
        length (averages_of r) = 24 \<and>
        (\<forall>h < 24. averages_of r ! h = 1))"
proof -
  from averages_vector[OF two_days_run, of real_of_int]
  obtain r where r: "fst (ComputePowerStats real_of_int example_viper (connected_client 2)
               (example_world two_days)) = Inr r"
    and len: "length (averages_of r) = 24"
    and avs: "\<forall>h < 24. averages_of r ! h =
       foldl (+) 0 (map (\<lambda>row. row ! h) (replicate 2 (replicate 24 (1::real)))) /
       real_of_int (Days (Config (connected_client 2)))"
    by blast
  have "averages_of r ! h = 1" if "h < 24" for h
  proof -
    have "foldl (+) 0 (map (\<lambda>row. row ! h) (replicate 2 (replicate 24 (1::real)))) = 2"
      using that by (simp add: numeral_2_eq_2)
    moreover have "Days (Config (connected_client 2)) = 2"
      by (simp add: connected_client_def example_client_def New_def)
    ultimately show ?thesis using avs that by simp
  qed
  with r len two_days_run show ?thesis by blast
qed

text \<open>
  C2.  For every configured day count, when the collection succeeds the matrix returned by
  \<^verbatim>\<open>getResults\<close> has exactly \<open>Days\<close> rows and every row has exactly 24 entries.  The day
  count need not be assumed positive: a successful run with \<open>Days = 0\<close> returns no rows.
\<close>

theorem getResults_matrix_shape:
  assumes "fst (getResults v c w) = Inr results"
  shows "int (length results) = Days (Config c) \<and>
         (\<forall>row \<in> set results. length row = 24)"
  using getResults_rows[OF assms] by (simp add: hoursInADay_def)

theorem getResults_matrix_shape_witness:
  "fst (getResults example_viper (connected_client 2) (example_world two_days)) =
     Inr (replicate 2 (replicate 24 1)) \<and>
   int (length (replicate 2 (replicate 24 (1::real)))) = Days (Config (connected_client 2)) \<and>
   map length (replicate 2 (replicate 24 (1::real))) = [24, 24]"
  using getResults_matrix_shape[OF two_days_run] two_days_run
  by (simp add: numeral_2_eq_2)

text \<open>
  C3.  The request of row \<open>i\<close> carries \<^verbatim>\<open>start\<close> and \<^verbatim>\<open>end\<close> truncated to midnight and
  formatted with millisecond precision, and the claim reads the emitted string, with its
  final \<^verbatim>\<open>Z\<close>, as the instant converted to UTC.  The code truncates to midnight UTC but
  formats the wall clock of the local zone and appends the letter \<^verbatim>\<open>Z\<close>.  With the
  local zone two hours east of UTC and the clock at 2024-06-15 08:30 UTC, the one request
  of a one-day run carries 02:00 with a \<^verbatim>\<open>Z\<close> for both bounds, while the two instants
  converted to UTC read 00:00.
\<close>

theorem local_wall_clock_sent_with_Z:
  "map time_window (sent (snd (snd (getResults example_viper (connected_client 1)
       (example_world one_day))))) =
     [(''2024-06-14T02:00:00.000Z'', ''2024-06-15T02:00:00.000Z'')] \<and>
   Time_Format (Time_UTC (Time_Truncate
      (Time_Add \<lparr>unixNano = 1718440200000000000, loc = (\<lambda>unix. 7200)\<rparr>
         (Duration_neg (day_offset 0)))
      (Duration_mul 24 Hour))) = ''2024-06-14T00:00:00.000Z'' \<and>
   Time_Format (Time_UTC (Time_Truncate
      \<lparr>unixNano = 1718440200001000000, loc = (\<lambda>unix. 7200)\<rparr>
      (Duration_mul 24 Hour))) = ''2024-06-15T00:00:00.000Z''"
proof (intro conjI)
  show "map time_window (sent (snd (snd (getResults example_viper (connected_client 1)
       (example_world one_day))))) =
     [(''2024-06-14T02:00:00.000Z'', ''2024-06-15T02:00:00.000Z'')]"
    by (simp add: one_day_requests time_window_def statistics_message_def Let_def
        example_start_instant example_end_instant example_start_local example_end_local)
next
  show "Time_Format (Time_UTC (Time_Truncate
      (Time_Add \<lparr>unixNano = 1718440200000000000, loc = (\<lambda>unix. 7200)\<rparr>
         (Duration_neg (day_offset 0)))
      (Duration_mul 24 Hour))) = ''2024-06-14T00:00:00.000Z''"
    by (simp only: example_start_instant Time_UTC_simp example_start_UTC)
next
  show "Time_Format (Time_UTC (Time_Truncate
      \<lparr>unixNano = 1718440200001000000, loc = (\<lambda>unix. 7200)\<rparr>
      (Duration_mul 24 Hour))) = ''2024-06-15T00:00:00.000Z''"
    by (simp only: example_end_instant Time_UTC_simp example_end_UTC)
qed




text \<open>
  C5.  An accepted response, one that reports success and has at least one bucket for the
  sensor, should have its 24 change values read in bounds, a shorter sequence being
  rejected as an error.  The code only rejects the empty sequence: a response with 23
  buckets passes both checks and the read at index 23 panics.
\<close>

theorem short_day_panics:
  "fst (getResults example_viper (connected_client 1) (example_world short_day)) =
     Inl (Panic (IndexOutOfRange 23 23))"
proof -
  let ?data = "\<lparr>ID = 2, Type = ''result'', Success = True,
                 Result = [''sensor.power'' \<mapsto> map (\<lambda>x. \<lparr>Change = x, End = 0, Start = 0\<rparr>) (replicate 23 (1::real))],
                 Error = \<lparr>Code = '''', Message = ''''\<rparr>\<rparr>"
  have len: "length (lookup_buckets ?data ''sensor.power'') = 23"
    by (simp add: lookup_buckets_def)
  have "extract_row ''sensor.power'' ?data =
          Inl (Panic (IndexOutOfRange (length (lookup_buckets ?data ''sensor.power''))
                                      (length (lookup_buckets ?data ''sensor.power''))))"
    by (rule extract_row_short) (simp_all add: lookup_buckets_def hoursInADay_def)
  with len have "extract_row ''sensor.power'' ?data = Inl (Panic (IndexOutOfRange 23 23))"
    by metis
  then have ex: "extract_row (example_viper ''sensor_id'') ?data = Inl (Panic (IndexOutOfRange 23 23))"
    by (simp add: example_sensor)
  show ?thesis
    by (rule getResults_stops[where v = example_viper and goods = "[]" and rest = "[]"
          and fr = "stats_frame 2 ''sensor.power'' (replicate 23 1)", OF _ _ _ _ _ _ _ _ _ ex])
       (simp_all add: connected_client_simps example_world_simps example_sensor maxAlloc_def
          short_day_def stats_frame_def)
qed

text \<open>
  C6.  After a successful \<^verbatim>\<open>Connect\<close> the message id is 1.  The collection loop that
  follows sends only statistics requests, the \<open>i\<close>-th (from 0) with id \<open>i + 2\<close>, so the ids
  are strictly increasing, and it leaves the counter at the number of requests sent plus
  one: one increment for each request.  Once the loop is entered (a positive day count
  within the allocation limit and a sensor id configured) a first request is sent, and it
  has id 2; a successful collection has sent exactly \<open>Days\<close> requests.
\<close>

theorem message_ids:
  assumes "Connect v c0 w0 = (None, c1, w1)" and "getResults v c1 w1 = (r, c2, w2)"
  shows "MessageID c1 = 1 \<and>
         (\<exists>reqs. sent w2 = sent w1 @ map StatsMessage reqs \<and>
                 length reqs \<le> nat (Days (Config c0)) \<and>
                 map req_id reqs = map (\<lambda>i. int i + 2) [0..<length reqs] \<and>
                 sorted_wrt (<) (map req_id reqs) \<and>
                 MessageID c2 = int (length reqs) + 1 \<and>
                 (0 < Days (Config c0) \<and> Days (Config c0) * 24 \<le> maxAlloc \<and>
                  v ''sensor_id'' \<noteq> '''' \<longrightarrow> reqs \<noteq> [] \<and> req_id (hd reqs) = 2) \<and>
                 (\<forall>results. r = Inr results \<longrightarrow> length reqs = nat (Days (Config c0))))"
proof -
  from Connect_client[OF assms(1)]
  have c1: "MessageID c1 = 1" "Config c1 = Config c0" "Conn c1 \<noteq> None" by simp_all
  let ?req = "\<lambda>k. statistics_message (v ''sensor_id'') (2 + int k) k
                \<lparr>unixNano = clock w1 (clock_reads w1 + 2 * k), loc = Local w1\<rparr>
                \<lparr>unixNano = clock w1 (clock_reads w1 + 2 * k + 1), loc = Local w1\<rparr>"
  from getResults_requests[OF assms(2) c1(3) c1(1)]
  obtain n where H: "n \<le> nat (Days (Config c1)) \<and>
          (0 < Days (Config c1) \<and> Days (Config c1) * 24 \<le> maxAlloc \<and> v ''sensor_id'' \<noteq> ''''
              \<longrightarrow> 0 < n) \<and>
          (\<forall>res. r = Inr res \<longrightarrow> n = nat (Days (Config c1))) \<and>
          MessageID c2 = 1 + int n \<and>
          sent w2 = sent w1 @ map (\<lambda>k. StatsMessage (?req k)) [0..<n]"
    ..
  from H have h1: "n \<le> nat (Days (Config c1))" by (rule conjunct1)
  from H have h2: "0 < Days (Config c1) \<and> Days (Config c1) * 24 \<le> maxAlloc \<and>
      v ''sensor_id'' \<noteq> '''' \<longrightarrow> 0 < n"
    by (elim conjE)
  from H have h3: "\<forall>res. r = Inr res \<longrightarrow> n = nat (Days (Config c1))" by (elim conjE)
  from H have h4: "MessageID c2 = 1 + int n" by (elim conjE)
  from H have h5: "sent w2 = sent w1 @ map (\<lambda>k. StatsMessage (?req k)) [0..<n]"
    by (elim conjE)
  let ?reqs = "map ?req [0..<n]"
  have a: "sent w2 = sent w1 @ map StatsMessage ?reqs"
    using h5 by (simp add: comp_def)
  have b: "length ?reqs \<le> nat (Days (Config c0))" using h1 c1(2) by simp
  have c: "map req_id ?reqs = map (\<lambda>i. int i + 2) [0..<length ?reqs]"
    by (simp add: comp_def add.commute)
  have "sorted_wrt (<) (map (\<lambda>i. int i + 2) [0..<length ?reqs])"
    by (simp add: sorted_wrt_map)
  then have d: "sorted_wrt (<) (map req_id ?reqs)" by (simp only: c)
  have e: "MessageID c2 = int (length ?reqs) + 1" using h4 by simp
  have f: "0 < Days (Config c0) \<and> Days (Config c0) * 24 \<le> maxAlloc \<and>
           v ''sensor_id'' \<noteq> '''' \<longrightarrow> ?reqs \<noteq> [] \<and> req_id (hd ?reqs) = 2"
  proof
    assume "0 < Days (Config c0) \<and> Days (Config c0) * 24 \<le> maxAlloc \<and> v ''sensor_id'' \<noteq> ''''"
    with h2[unfolded c1(2)] have pos: "0 < n" by (rule mp)
    then have "[0..<n] = 0 # [Suc 0..<n]" by (simp add: upt_conv_Cons)
    then have "?reqs = ?req 0 # map ?req [Suc 0..<n]" by (simp only: list.map)
    then show "?reqs \<noteq> [] \<and> req_id (hd ?reqs) = 2" by simp
  qed
  have g: "\<forall>results. r = Inr results \<longrightarrow> length ?reqs = nat (Days (Config c0))"
    using h3 c1(2) by simp
  from a b c d e f g have "\<exists>reqs. sent w2 = sent w1 @ map StatsMessage reqs \<and>
                 length reqs \<le> nat (Days (Config c0)) \<and>
                 map req_id reqs = map (\<lambda>i. int i + 2) [0..<length reqs] \<and>
                 sorted_wrt (<) (map req_id reqs) \<and>
                 MessageID c2 = int (length reqs) + 1 \<and>
                 (0 < Days (Config c0) \<and> Days (Config c0) * 24 \<le> maxAlloc \<and>
                  v ''sensor_id'' \<noteq> '''' \<longrightarrow> reqs \<noteq> [] \<and> req_id (hd reqs) = 2) \<and>
                 (\<forall>results. r = Inr results \<longrightarrow> length reqs = nat (Days (Config c0)))"
    by (intro exI[of _ ?reqs] conjI)
  with c1(1) show ?thesis by (rule conjI)
qed

theorem message_ids_witness:
  "Connect example_viper (example_client 2)
     (example_world (hello_frame # auth_ok_frame # two_days)) =
     (None, connected_client 2,
      (example_world two_days)\<lparr>dialed := [(''ws://ha.local:8123/api/websocket?kiosk=1'', False)],
        sent := [AuthMessage [(''type'', ''auth''), (''access_token'', ''secret'')]]\<rparr>) \<and>
   MessageID (connected_client 2) = 1 \<and>
   fst (getResults example_viper (connected_client 2)
         ((example_world two_days)\<lparr>dialed := [(''ws://ha.local:8123/api/websocket?kiosk=1'', False)],
            sent := [AuthMessage [(''type'', ''auth''), (''access_token'', ''secret'')]]\<rparr>)) =
     Inr (replicate 2 (replicate 24 1)) \<and>
   (\<exists>reqs. sent (snd (snd (getResults example_viper (connected_client 2)
               ((example_world two_days)\<lparr>dialed := [(''ws://ha.local:8123/api/websocket?kiosk=1'', False)],
                  sent := [AuthMessage [(''type'', ''auth''), (''access_token'', ''secret'')]]\<rparr>)))) =
            [AuthMessage [(''type'', ''auth''), (''access_token'', ''secret'')]] @ map StatsMessage reqs \<and>
          map req_id reqs = [2, 3] \<and>
          sorted_wrt (<) (map req_id reqs) \<and>
          MessageID (fst (snd (getResults example_viper (connected_client 2)
               ((example_world two_days)\<lparr>dialed := [(''ws://ha.local:8123/api/websocket?kiosk=1'', False)],
                  sent := [AuthMessage [(''type'', ''auth''), (''access_token'', ''secret'')]]\<rparr>)))) = 3)"
proof -
  let ?w1 = "(example_world two_days)\<lparr>dialed := [(''ws://ha.local:8123/api/websocket?kiosk=1'', False)],
        sent := [AuthMessage [(''type'', ''auth''), (''access_token'', ''secret'')]]\<rparr>"
  let ?run = "getResults example_viper (connected_client 2) ?w1"
  have run: "?run = (fst ?run, fst (snd ?run), snd (snd ?run))"
    by simp
  have e1: "sent ?w1 = [AuthMessage [(''type'', ''auth''), (''access_token'', ''secret'')]]"
    by simp
  have e2: "nat (Days (Config (example_client 2))) = 2"
    by (simp add: example_client_def New_def)
  note B = message_ids[OF example_Connect run, unfolded e1 e2]
  from B have B1: "MessageID (connected_client 2) = 1" by (rule conjunct1)
  from B have "\<exists>reqs. sent (snd (snd ?run)) =
       [AuthMessage [(''type'', ''auth''), (''access_token'', ''secret'')]] @ map StatsMessage reqs \<and>
     length reqs \<le> 2 \<and>
     map req_id reqs = map (\<lambda>i. int i + 2) [0..<length reqs] \<and>
     sorted_wrt (<) (map req_id reqs) \<and>
     MessageID (fst (snd ?run)) = int (length reqs) + 1 \<and>
     (0 < Days (Config (example_client 2)) \<and> Days (Config (example_client 2)) * 24 \<le> maxAlloc \<and>
        example_viper ''sensor_id'' \<noteq> '''' \<longrightarrow> reqs \<noteq> [] \<and> req_id (hd reqs) = 2) \<and>
     (\<forall>results. fst ?run = Inr results \<longrightarrow> length reqs = 2)"
    by (rule conjunct2)
  then obtain reqs where R:
    "sent (snd (snd ?run)) =
       [AuthMessage [(''type'', ''auth''), (''access_token'', ''secret'')]] @ map StatsMessage reqs \<and>
     length reqs \<le> 2 \<and>
     map req_id reqs = map (\<lambda>i. int i + 2) [0..<length reqs] \<and>
     sorted_wrt (<) (map req_id reqs) \<and>
     MessageID (fst (snd ?run)) = int (length reqs) + 1 \<and>
     (0 < Days (Config (example_client 2)) \<and> Days (Config (example_client 2)) * 24 \<le> maxAlloc \<and>
        example_viper ''sensor_id'' \<noteq> '''' \<longrightarrow> reqs \<noteq> [] \<and> req_id (hd reqs) = 2) \<and>
     (\<forall>results. fst ?run = Inr results \<longrightarrow> length reqs = 2)"
    ..
  from R have r1: "sent (snd (snd ?run)) =
       [AuthMessage [(''type'', ''auth''), (''access_token'', ''secret'')]] @ map StatsMessage reqs"
    by (rule conjunct1)
  from R have r3: "map req_id reqs = map (\<lambda>i. int i + 2) [0..<length reqs]" by (elim conjE)
  from R have r4: "sorted_wrt (<) (map req_id reqs)" by (elim conjE)
  from R have r5: "MessageID (fst (snd ?run)) = int (length reqs) + 1" by (elim conjE)
  from R have r7: "\<forall>results. fst ?run = Inr results \<longrightarrow> length reqs = 2" by (elim conjE)
  from r7 connected_run have len: "length reqs = 2" by (simp only:)
  from r3 len have ids: "map req_id reqs = [2, 3]"
    by (simp add: numeral_2_eq_2)
  from r5 len have last: "MessageID (fst (snd ?run)) = 3" by simp
  from r1 ids r4 last have "\<exists>reqs. sent (snd (snd ?run)) =
            [AuthMessage [(''type'', ''auth''), (''access_token'', ''secret'')]] @ map StatsMessage reqs \<and>
          map req_id reqs = [2, 3] \<and>
          sorted_wrt (<) (map req_id reqs) \<and>
          MessageID (fst (snd ?run)) = 3"
    by (intro exI[of _ reqs] conjI)
  with example_Connect B1 connected_run show ?thesis
    by (intro conjI)
qed

text \<open>
  C7.  When the configured URL is the empty string, \<^verbatim>\<open>Connect\<close> returns the error
  \<^verbatim>\<open>url is required\<close> and leaves the world as it was: nothing is dialed, read or
  written.
\<close>

theorem empty_url_rejected:
  assumes "v ''url'' = ''''"
  shows "Connect v c w = (Some (Err ''url is required''), c\<lparr>MessageID := 1\<rparr>, w)"
  using assms by (rule Connect_no_url[where v = v])

theorem empty_url_rejected_witness:
  "unset_viper ''url'' = '''' \<and>
   Connect unset_viper (example_client 2) (example_world two_days) =
     (Some (Err ''url is required''), (example_client 2)\<lparr>MessageID := 1\<rparr>, example_world two_days)"
proof -
  have u: "unset_viper ''url'' = ''''" by (simp add: unset_viper_def)
  from u empty_url_rejected[where v = unset_viper, OF u] show ?thesis by (rule conjI)
qed

text \<open>
  C8.  When the message read after the authentication message has a type other than
  \<^verbatim>\<open>auth_ok\<close>, \<^verbatim>\<open>Connect\<close> returns the error \<^verbatim>\<open>authentication failed: \<close> followed by
  the \<^verbatim>\<open>%v\<close> rendering of the message field the server sent.
\<close>

theorem authentication_rejected:
  assumes "v ''url'' \<noteq> ''''" and "url_Parse w (v ''url'') = Inr parsed"
    and "Dial w (URL_String w ((rewrite_scheme parsed)\<lparr>Path := ''/api/websocket''\<rparr>))
           (Insecure (Config c)) = None"
    and "inbox w = hello # reply # rest" and "as_map hello = Inr initMsg"
    and "write_error w (length (sent w)) = None" and "as_map reply = Inr authResp"
    and "index_any authResp ''type'' \<noteq> Str ''auth_ok''"
  shows "fst (Connect v c w) =
           Some (Err (''authentication failed: '' @ fmt_v (index_any authResp ''message'')))"
  using assms by (rule Connect_rejected[where v = v])

theorem authentication_rejected_witness:
  "fst (Connect example_viper (example_client 2)
          (example_world [hello_frame, auth_invalid_frame])) =
     Some (Err ''authentication failed: Invalid access token or password'')"
proof -
  have "fst (Connect example_viper (example_client 2)
          (example_world [hello_frame, auth_invalid_frame])) =
     Some (Err (''authentication failed: '' @
       fmt_v (index_any [''message'' \<mapsto> Str ''Invalid access token or password'',
                         ''type'' \<mapsto> Str ''auth_invalid''] ''message'')))"
    by (rule authentication_rejected[where v = example_viper and parsed = example_URL and hello = hello_frame
        and reply = auth_invalid_frame and rest = "[]"
        and initMsg = "[''type'' \<mapsto> Str ''auth_required'']"])
     (simp_all add: example_url example_parsed example_world_simps example_target
        hello_frame_def auth_invalid_frame_def message_frame_def index_any_def,
      simp add: example_world_def)
  then show ?thesis by (simp add: index_any_def)
qed



text \<open>
  C10.  After every \<^verbatim>\<open>Connect\<close> the message id is 1; when \<^verbatim>\<open>Connect\<close> fails the
  connection field is the one the client had before, and only a successful \<^verbatim>\<open>Connect\<close>
  sets it.
\<close>

theorem Connect_frame:
  "MessageID (fst (snd (Connect v c w))) = 1 \<and>
   (fst (Connect v c w) \<noteq> None \<longrightarrow> Conn (fst (snd (Connect v c w))) = Conn c) \<and>
   (fst (Connect v c w) = None \<longrightarrow> Conn (fst (snd (Connect v c w))) \<noteq> None)"
proof -
  have "Connect v c w = (fst (Connect v c w), fst (snd (Connect v c w)), snd (snd (Connect v c w)))"
    by simp
  from Connect_client[OF this] show ?thesis by (elim conjE) (intro conjI)
qed

theorem Connect_frame_witness:
  "fst (Connect example_viper ((connected_client 2)\<lparr>MessageID := 7\<rparr>)
          (example_world [hello_frame, auth_invalid_frame])) \<noteq> None \<and>
   MessageID (fst (snd (Connect example_viper ((connected_client 2)\<lparr>MessageID := 7\<rparr>)
          (example_world [hello_frame, auth_invalid_frame])))) = 1 \<and>
   Conn (fst (snd (Connect example_viper ((connected_client 2)\<lparr>MessageID := 7\<rparr>)
          (example_world [hello_frame, auth_invalid_frame])))) =
     Some (WebsocketConn ''ws://ha.local:8123/api/websocket?kiosk=1'')"
proof -
  let ?c = "(connected_client 2)\<lparr>MessageID := 7\<rparr>"
  let ?w = "example_world [hello_frame, auth_invalid_frame]"
  have failed: "fst (Connect example_viper ?c ?w) \<noteq> None"
    by (simp add: example_rejected)
  note F = Connect_frame[of example_viper ?c ?w]
  from F have m: "MessageID (fst (snd (Connect example_viper ?c ?w))) = 1" by (rule conjunct1)
  from F have "fst (Connect example_viper ?c ?w) \<noteq> None \<longrightarrow>
      Conn (fst (snd (Connect example_viper ?c ?w))) = Conn ?c"
    by (elim conjE)
  from this failed have "Conn (fst (snd (Connect example_viper ?c ?w))) = Conn ?c" by (rule mp)
  then have k: "Conn (fst (snd (Connect example_viper ?c ?w))) =
      Some (WebsocketConn ''ws://ha.local:8123/api/websocket?kiosk=1'')"
    by (simp add: connected_client_def)
  from failed m k show ?thesis by (intro conjI)
qed

end
